theory Spec2Isabelle
  imports Complex_Main "HOL-Library.Sublist"
begin

section \<open>Strings\<close>

text \<open>
  Python's \<^verbatim>\<open>sub in s\<close> on strings is the substring test.  URLs are byte strings
  here; every pattern of the script is plain ASCII.
\<close>

fun py_in :: "string \<Rightarrow> string \<Rightarrow> bool" where
  "py_in sub [] = (sub = [])"
| "py_in sub (c # cs) = (prefix sub (c # cs) \<or> py_in sub cs)"

text \<open>\<^verbatim>\<open>str.lower()\<close>, on the ASCII letters.\<close>

definition lower_char :: "char \<Rightarrow> char" where
  "lower_char c =
     (case map_of (zip ''ABCDEFGHIJKLMNOPQRSTUVWXYZ'' ''abcdefghijklmnopqrstuvwxyz'') c of
        Some l \<Rightarrow> l
      | None \<Rightarrow> c)"

definition lower :: "string \<Rightarrow> string" where
  "lower s = map lower_char s"

section \<open>Exceptions, effects and the trace of a run\<close>

text \<open>
  What a call into Playwright or pyotp may raise.  \<open>PlaywrightTimeout\<close> is a subclass
  of \<^verbatim>\<open>Exception\<close>, \<open>OtherException\<close> stands for every other one (Playwright's
  \<^verbatim>\<open>Error\<close>, the \<^verbatim>\<open>binascii.Error\<close> of a seed that is not base32);
  \<open>KeyboardInterrupt\<close> is not an \<^verbatim>\<open>Exception\<close>, so \<^verbatim>\<open>except Exception\<close> lets it through while a bare \<^verbatim>\<open>except:\<close> swallows it.
\<close>

datatype exn = PlaywrightTimeout | OtherException | KeyboardInterrupt

fun is_Exception :: "exn \<Rightarrow> bool" where
  "is_Exception KeyboardInterrupt = False"
| "is_Exception _ = True"

text \<open>
  The log lines that name a step or a failure, by the place that prints them
  (\<^verbatim>\<open>log_step\<close>; the other lines, and the screenshots of \<^verbatim>\<open>safe_screenshot\<close>, which
  catches every \<^verbatim>\<open>Exception\<close> it raises, have no effect on the control flow and are left
  out).
\<close>

datatype message =
    MissingCredentials        \<comment> \<open>line 403\<close>
  | StepVisit                 \<comment> \<open>line 430\<close>
  | StepFindProviderButton    \<comment> \<open>line 437\<close>
  | AlreadyLoggedIn           \<comment> \<open>line 449\<close>
  | ProviderButtonNotFound    \<comment> \<open>line 451\<close>
  | StepWaitProvider          \<comment> \<open>line 456\<close>
  | StepCredentials           \<comment> \<open>line 62\<close>
  | SubmitControlNotFound     \<comment> \<open>line 93\<close>
  | FillCredentialsFailed     \<comment> \<open>line 98\<close>
  | GitHubLoginFailed         \<comment> \<open>line 466\<close>
  | StepDeviceVerification    \<comment> \<open>line 267\<close>
  | DeviceVerified            \<comment> \<open>lines 285 and 297\<close>
  | DeviceVerificationTimeout \<comment> \<open>line 302\<close>
  | DeviceVerificationFailed  \<comment> \<open>line 478\<close>
  | StepTwoFactor             \<comment> \<open>line 105\<close>
  | MissingSecret             \<comment> \<open>line 109\<close>
  | CodeGenerationFailed      \<comment> \<open>line 145\<close>
  | NoInputFound              \<comment> \<open>line 164\<close>
  | TwoFactorAccepted         \<comment> \<open>line 225\<close>
  | CodeRejected              \<comment> \<open>line 246\<close>
  | FillCodeFailed            \<comment> \<open>line 253\<close>
  | RetriesExhausted          \<comment> \<open>line 261\<close>
  | TwoFactorFailed           \<comment> \<open>line 485\<close>
  | StepOAuth                 \<comment> \<open>line 308\<close>
  | StepFinalWait             \<comment> \<open>line 498\<close>
  | StepVerify                \<comment> \<open>line 329\<close>
  | LoginSucceeded            \<comment> \<open>line 511\<close>
  | LoginUnconfirmed          \<comment> \<open>line 516\<close>
  | UserInterrupted           \<comment> \<open>line 522\<close>
  | UnhandledException        \<comment> \<open>line 526\<close>

text \<open>What a run does to the world, in order.\<close>

datatype event =
    LaunchBrowser
  | NewPage
  | CloseBrowser
  | Goto string
  | Clicked string
  | Filled string string
  | Cleared string
  | PressedEnter string
  | CodeGenerated string
  | Slept real
  | Logged message

text \<open>
  A computation returns a value or raises, and leaves the events it performed.
  The world is scripted: every call into it finds its answer in a record.
\<close>

type_synonym ('e, 'a) run = "('e + 'a) \<times> event list"

definition ret :: "'a \<Rightarrow> ('e, 'a) run" where
  "ret x = (Inr x, [])"

definition throw :: "'e \<Rightarrow> ('e, 'a) run" where
  "throw e = (Inl e, [])"

definition emit :: "event \<Rightarrow> ('e, unit) run" where
  "emit ev = (Inr (), [ev])"

definition sleep :: "real \<Rightarrow> ('e, unit) run" where
  "sleep d = emit (Slept d)"

definition log_step :: "message \<Rightarrow> ('e, unit) run" where
  "log_step m = emit (Logged m)"

text \<open>A call into the world: the event is recorded when the call returns.\<close>

definition perform :: "event \<Rightarrow> 'e + 'a \<Rightarrow> ('e, 'a) run" where
  "perform ev r = (case r of Inl e \<Rightarrow> (Inl e, []) | Inr x \<Rightarrow> (Inr x, [ev]))"

definition call :: "'e + 'a \<Rightarrow> ('e, 'a) run" where
  "call r = (r, [])"

definition then_do :: "('e, 'a) run \<Rightarrow> ('a \<Rightarrow> ('e, 'b) run) \<Rightarrow> ('e, 'b) run" where
  "then_do m f =
     (case m of
        (Inl e, t) \<Rightarrow> (Inl e, t)
      | (Inr x, t) \<Rightarrow> (case f x of (r, t') \<Rightarrow> (r, t @ t')))"

text \<open>\<^verbatim>\<open>try: m  except C as e: h e\<close>, for the exceptions \<open>e\<close> with \<open>C e\<close>.\<close>

definition try_except :: "('e \<Rightarrow> bool) \<Rightarrow> ('e, 'a) run \<Rightarrow> ('e \<Rightarrow> ('e, 'a) run) \<Rightarrow> ('e, 'a) run" where
  "try_except C m h =
     (case m of
        (Inl e, t) \<Rightarrow> (if C e then (case h e of (r, t') \<Rightarrow> (r, t @ t')) else (Inl e, t))
      | (Inr x, t) \<Rightarrow> (Inr x, t))"

definition codes_generated :: "event list \<Rightarrow> nat" where
  "codes_generated t = length (filter (\<lambda>ev. case ev of CodeGenerated c \<Rightarrow> True | _ \<Rightarrow> False) t)"

text \<open>The log lines of a trace, in order.\<close>

fun messages :: "event list \<Rightarrow> message list" where
  "messages [] = []"
| "messages (Logged m # t) = m # messages t"
| "messages (ev # t) = messages t"

fun slept_total :: "event list \<Rightarrow> real" where
  "slept_total [] = 0"
| "slept_total (Slept d # t) = d + slept_total t"
| "slept_total (ev # t) = slept_total t"

section \<open>try\_click (lines 45-57)\<close>

text \<open>
  The first selector that is visible and whose click returns wins; a selector whose
  lookup or click raises is skipped (bare \<^verbatim>\<open>except: continue\<close>).
\<close>

fun try_click :: "(string \<Rightarrow> exn + bool) \<Rightarrow> (string \<Rightarrow> exn + unit) \<Rightarrow> string list \<Rightarrow> ('e, bool) run" where
  "try_click is_visible click [] = ret False"
| "try_click is_visible click (selector # selectors) =
     (case is_visible selector of
        Inr True \<Rightarrow>
          (case click selector of
             Inr u \<Rightarrow> (Inr True, [Clicked selector])
           | Inl e \<Rightarrow> try_click is_visible click selectors)
      | Inr False \<Rightarrow> try_click is_visible click selectors
      | Inl e \<Rightarrow> try_click is_visible click selectors)"

section \<open>verify\_login\_success (lines 327-383)\<close>

record verify_page =
  final_url :: string
  text_count :: "string \<Rightarrow> exn + nat"       \<comment> \<open>\<^verbatim>\<open>page.get_by_text(text).count()\<close>\<close>
  locator_count :: "string \<Rightarrow> exn + nat"    \<comment> \<open>\<^verbatim>\<open>page.locator(selector).count()\<close>\<close>

datatype indicator = UrlCorrect | LeftGitHub | FoundText string | FoundUserMenu

definition page_text_checks :: "string list" where
  "page_text_checks = [''App Launchpad'', ''Devbox'', ''Dashboard'', ''Create'', ''Workspace'']"

definition user_menu_selectors :: "string list" where
  "user_menu_selectors =
     [''[data-testid='user-menu']'',
      ''button[aria-label*='user' i]'',
      ''.user-avatar'',
      ''[class*='avatar']'']"

text \<open>Check 3: each lookup has its own \<^verbatim>\<open>try\<close>; one that raises is skipped.\<close>

fun text_check :: "(string \<Rightarrow> exn + nat) \<Rightarrow> string list \<Rightarrow> indicator list" where
  "text_check cnt [] = []"
| "text_check cnt (t # ts) =
     (case cnt t of
        Inr n \<Rightarrow> (if n > 0 then [FoundText t] else text_check cnt ts)
      | Inl e \<Rightarrow> text_check cnt ts)"

text \<open>Check 4: one \<^verbatim>\<open>try\<close> around the whole loop; a lookup that raises ends it.\<close>

fun menu_check :: "(string \<Rightarrow> exn + nat) \<Rightarrow> string list \<Rightarrow> indicator list" where
  "menu_check cnt [] = []"
| "menu_check cnt (s # ss) =
     (case cnt s of
        Inr n \<Rightarrow> (if n > 0 then [FoundUserMenu] else menu_check cnt ss)
      | Inl e \<Rightarrow> [])"

definition success_indicators :: "verify_page \<Rightarrow> indicator list" where
  "success_indicators p =
     (if py_in ''claw.cloud'' (final_url p) \<and> \<not> py_in ''signin'' (final_url p)
      then [UrlCorrect] else [])
     @ (if \<not> py_in ''github.com'' (final_url p) then [LeftGitHub] else [])
     @ text_check (text_count p) page_text_checks
     @ menu_check (locator_count p) user_menu_selectors"

definition verify_login_success :: "verify_page \<Rightarrow> (exn, bool) run" where
  "verify_login_success p =
     then_do (log_step StepVerify) (\<lambda>_.
     ret (length (success_indicators p) \<ge> 2))"

subsection \<open>The four signals, as the specification words them\<close>

text \<open>
  The host of a URL: what stands between \<open>://\<close> and the next of \<open>/ ? # :\<close>.  A URL
  belongs to a site when its host is the site's domain or a subdomain of it.
\<close>

fun after_scheme :: "string \<Rightarrow> string" where
  "after_scheme [] = []"
| "after_scheme (c # cs) =
     (if prefix ''://'' (c # cs) then drop 3 (c # cs) else after_scheme cs)"

definition url_host :: "string \<Rightarrow> string" where
  "url_host u = takeWhile (\<lambda>c. c \<notin> set ''/?#:'') (after_scheme u)"

definition on_site :: "string \<Rightarrow> string \<Rightarrow> bool" where
  "on_site u domain = (url_host u = domain \<or> suffix (''.'' @ domain) (url_host u))"

definition found :: "exn + nat \<Rightarrow> bool" where
  "found r = (case r of Inr n \<Rightarrow> n > 0 | Inl e \<Rightarrow> False)"

definition landmark_phrases :: "string list" where
  "landmark_phrases = [''App Launchpad'', ''Devbox'', ''Dashboard'', ''Create'', ''Workspace'']"

definition user_menu_patterns :: "string list" where
  "user_menu_patterns =
     [''[data-testid='user-menu']'',
      ''button[aria-label*='user' i]'',
      ''.user-avatar'',
      ''[class*='avatar']'']"

text \<open>Signal 1: the URL belongs to the target host and has no sign-in marker.\<close>

definition claimed_target_url :: "verify_page \<Rightarrow> bool" where
  "claimed_target_url p = (on_site (final_url p) ''claw.cloud'' \<and> \<not> py_in ''signin'' (final_url p))"

text \<open>Signal 2: the URL does not belong to the provider's host.\<close>

definition claimed_off_provider :: "verify_page \<Rightarrow> bool" where
  "claimed_off_provider p = (\<not> on_site (final_url p) ''github.com'')"

text \<open>Signal 3: a landmark phrase is found in the page text.\<close>

definition landmark_found :: "verify_page \<Rightarrow> bool" where
  "landmark_found p = (\<exists>t \<in> set landmark_phrases. found (text_count p t))"

text \<open>Signal 4: an element matching a user-menu or avatar pattern is present.\<close>

definition user_menu_found :: "verify_page \<Rightarrow> bool" where
  "user_menu_found p = (\<exists>s \<in> set user_menu_patterns. found (locator_count p s))"

definition claimed_tally :: "verify_page \<Rightarrow> nat" where
  "claimed_tally p =
     of_bool (claimed_target_url p) + of_bool (claimed_off_provider p)
     + of_bool (landmark_found p) + of_bool (user_menu_found p)"

subsection \<open>The four checks, as the code makes them\<close>

text \<open>Check 1: the URL string holds \<open>claw.cloud\<close> somewhere and \<open>signin\<close> nowhere.\<close>

definition url_mentions_target :: "verify_page \<Rightarrow> bool" where
  "url_mentions_target p = (py_in ''claw.cloud'' (final_url p) \<and> \<not> py_in ''signin'' (final_url p))"

text \<open>Check 2: the URL string holds \<open>github.com\<close> nowhere.\<close>

definition url_omits_provider :: "verify_page \<Rightarrow> bool" where
  "url_omits_provider p = (\<not> py_in ''github.com'' (final_url p))"

text \<open>Checks 3 and 4 are the signals 3 and 4, when no user-menu lookup raises.\<close>

definition menu_lookups_return :: "verify_page \<Rightarrow> bool" where
  "menu_lookups_return p = (\<forall>s \<in> set user_menu_patterns. \<not> isl (locator_count p s))"

definition check_tally :: "verify_page \<Rightarrow> nat" where
  "check_tally p =
     of_bool (url_mentions_target p) + of_bool (url_omits_provider p)
     + of_bool (landmark_found p) + of_bool (user_menu_found p)"

subsection \<open>Scripted pages for the success heuristic\<close>

text \<open>The console's home: checks 1 and 2 only.\<close>

definition page_two_signals :: verify_page where
  "page_two_signals =
     \<lparr>final_url = ''https://ap-northeast-1.run.claw.cloud/'',
      text_count = (\<lambda>t. Inr 0), locator_count = (\<lambda>s. Inr 0)\<rparr>"

text \<open>GitHub's login form with the word Create on it: check 3 only.\<close>

definition page_one_signal :: verify_page where
  "page_one_signal =
     \<lparr>final_url = ''https://github.com/login'',
      text_count = (\<lambda>t. if t = ''Create'' then Inr 1 else Inr 0),
      locator_count = (\<lambda>s. Inr 0)\<rparr>"

text \<open>
  GitHub's consent page, which names the console in its query and shows the avatar of
  the account.
\<close>

definition page_oauth_consent :: verify_page where
  "page_oauth_consent =
     \<lparr>final_url = ''https://github.com/login/oauth/authorize?client_id=abc&redirect_uri=https%3A%2F%2Fap-northeast-1.run.claw.cloud%2Fcallback'',
      text_count = (\<lambda>t. Inr 0),
      locator_count = (\<lambda>s. if s = ''[class*='avatar']'' then Inr 2 else Inr 0)\<rparr>"

text \<open>
  The console's sign-in page with an avatar element, where the first user-menu lookup
  raises.
\<close>

definition page_menu_lookup_raises :: verify_page where
  "page_menu_lookup_raises =
     \<lparr>final_url = ''https://ap-northeast-1.run.claw.cloud/signin'',
      text_count = (\<lambda>t. Inr 0),
      locator_count = (\<lambda>s. if s = ''[data-testid='user-menu']'' then Inl OtherException
                            else if s = ''.user-avatar'' then Inr 1 else Inr 0)\<rparr>"

section \<open>handle\_2fa\_verification (lines 103-262)\<close>

definition MAX_2FA_RETRIES :: nat where
  "MAX_2FA_RETRIES = 3"

definition WAIT_AFTER_2FA :: real where
  "WAIT_AFTER_2FA = 5"

definition FINAL_WAIT :: real where
  "FINAL_WAIT = 25"

text \<open>Python's \<^verbatim>\<open>not v\<close> for a value that is \<^verbatim>\<open>None\<close> or a string.\<close>

definition falsy :: "string option \<Rightarrow> bool" where
  "falsy v = (case v of None \<Rightarrow> True | Some s \<Rightarrow> s = [])"

definition input_selectors :: "string list" where
  "input_selectors =
     [''#app_totp'',
      ''#otp'',
      ''#sms_otp'',
      ''input[name='otp']'',
      ''input[name='app_otp']'',
      ''input[autocomplete='one-time-code']'',
      ''input[type='text'][inputmode='numeric']'',
      ''input[aria-label*='code' i]'',
      ''input[placeholder*='code' i]'',
      ''input.form-control[type='text']'']"

text \<open>The fourth selector holds two Chinese characters, here as their UTF-8 bytes.\<close>

definition submit_selectors :: "string list" where
  "submit_selectors =
     [''button[type='submit']'',
      ''input[type='submit']'',
      ''button:has-text('Verify')'',
      ''button:has-text('' @ [CHR 0x27, CHR 0xE9, CHR 0xAA, CHR 0x8C, CHR 0xE8, CHR 0xAF, CHR 0x81, CHR 0x27] @ '')'',
      ''button.btn-primary'']"

text \<open>
  What the page and the clock answer during one attempt.  \<^verbatim>\<open>page.url\<close> is an attribute
  read and returns a string.
\<close>

record twofa_attempt =
  totp_now :: "string \<Rightarrow> exn + string"      \<comment> \<open>\<^verbatim>\<open>pyotp.TOTP(totp_secret).now()\<close>\<close>
  input_visible :: "string \<Rightarrow> exn + bool"    \<comment> \<open>\<^verbatim>\<open>is_visible\<close> of an input selector\<close>
  clear_input :: "exn + unit"
  fill_code :: "exn + unit"
  submit_visible :: "string \<Rightarrow> exn + bool"
  submit_click :: "string \<Rightarrow> exn + unit"
  press_enter :: "exn + unit"
  load_state :: "exn + unit"                  \<comment> \<open>\<^verbatim>\<open>page.wait_for_load_state("networkidle")\<close>\<close>
  url_after_submit :: string                  \<comment> \<open>\<^verbatim>\<open>page.url\<close> at line 220\<close>
  wall_clock :: real                          \<comment> \<open>\<^verbatim>\<open>time.time()\<close> at line 250\<close>

type_synonym twofa_page = "nat \<Rightarrow> twofa_attempt"

text \<open>Lines 152-161: the first selector whose \<^verbatim>\<open>is_visible\<close> returns True.\<close>

fun first_visible :: "(string \<Rightarrow> exn + bool) \<Rightarrow> string list \<Rightarrow> string option" where
  "first_visible is_visible [] = None"
| "first_visible is_visible (selector # selectors) =
     (case is_visible selector of
        Inr True \<Rightarrow> Some selector
      | Inr False \<Rightarrow> first_visible is_visible selectors
      | Inl e \<Rightarrow> first_visible is_visible selectors)"

text \<open>Line 224: the location has left the two-factor page.\<close>

definition left_two_factor :: "string \<Rightarrow> bool" where
  "left_two_factor current_url =
     (\<not> py_in ''two-factor'' current_url \<and> \<not> py_in ''sessions/two-factor'' current_url)"

text \<open>
  Line 250: \<^verbatim>\<open>32 - (time.time() % 30)\<close>.  Python's \<^verbatim>\<open>%\<close> with a positive modulus
  takes the sign of the modulus; the floats are taken as reals.
\<close>

definition py_fmod :: "real \<Rightarrow> real \<Rightarrow> real" where
  "py_fmod x m = x - m * of_int \<lfloor>x / m\<rfloor>"

definition totp_window_sleep :: "real \<Rightarrow> real" where
  "totp_window_sleep now = 32 - py_fmod now 30"

text \<open>What the body of a loop does next.\<close>

datatype 'a flow = Return 'a | Continue

text \<open>
  Lines 177-250, the body of the \<^verbatim>\<open>try\<close>.  The loop over the submit selectors
  (lines 192-201) is the loop of \<open>try_click\<close>.  The scan for an error banner
  (lines 230-243) only logs, inside a bare \<^verbatim>\<open>except\<close>, and is left out.
\<close>

definition enter_code :: "twofa_attempt \<Rightarrow> nat \<Rightarrow> string \<Rightarrow> string \<Rightarrow> (exn, bool flow) run" where
  "enter_code a attempt input_element code =
     then_do (perform (Cleared input_element) (clear_input a)) (\<lambda>_.
     then_do (sleep (1/2)) (\<lambda>_.
     then_do (perform (Filled input_element code) (fill_code a)) (\<lambda>_.
     then_do (sleep (1/2)) (\<lambda>_.
     then_do (try_click (submit_visible a) (submit_click a) submit_selectors) (\<lambda>submit_clicked.
     then_do (if \<not> submit_clicked
              then perform (PressedEnter input_element) (press_enter a) else ret ()) (\<lambda>_.
     then_do (sleep WAIT_AFTER_2FA) (\<lambda>_.
     then_do (try_except (\<lambda>e. e = PlaywrightTimeout) (call (load_state a)) (\<lambda>e. ret ())) (\<lambda>_.
     if left_two_factor (url_after_submit a) then
       then_do (log_step TwoFactorAccepted) (\<lambda>_. ret (Return True))
     else
       then_do (log_step CodeRejected) (\<lambda>_.
       then_do (if attempt < MAX_2FA_RETRIES - 1
                then sleep (totp_window_sleep (wall_clock a)) else ret ()) (\<lambda>_.
       ret Continue))))))))))"

text \<open>Lines 137-258, one iteration of the loop.\<close>

definition attempt_2fa :: "twofa_attempt \<Rightarrow> string \<Rightarrow> nat \<Rightarrow> (exn, bool flow) run" where
  "attempt_2fa a totp_secret attempt =
     (case totp_now a totp_secret of
        Inl e \<Rightarrow>
          (if is_Exception e
           then then_do (log_step CodeGenerationFailed) (\<lambda>_. ret (Return False))
           else throw e)
      | Inr code \<Rightarrow>
          then_do (emit (CodeGenerated code)) (\<lambda>_.
          case first_visible (input_visible a) input_selectors of
            None \<Rightarrow>
              then_do (log_step NoInputFound) (\<lambda>_.
              then_do (sleep 3) (\<lambda>_.
              if attempt = MAX_2FA_RETRIES - 1 then ret (Return False) else ret Continue))
          | Some input_element \<Rightarrow>
              try_except is_Exception (enter_code a attempt input_element code)
                (\<lambda>e. then_do (log_step FillCodeFailed) (\<lambda>_.
                     then_do (if attempt < MAX_2FA_RETRIES - 1 then sleep 3 else ret ()) (\<lambda>_.
                     ret Continue)))))"

text \<open>\<^verbatim>\<open>for attempt in range(MAX_2FA_RETRIES)\<close>, then lines 260-262.\<close>

fun retry_loop :: "twofa_page \<Rightarrow> string \<Rightarrow> nat list \<Rightarrow> (exn, bool) run" where
  "retry_loop page totp_secret [] =
     then_do (log_step RetriesExhausted) (\<lambda>_. ret False)"
| "retry_loop page totp_secret (attempt # attempts) =
     then_do (attempt_2fa (page attempt) totp_secret attempt) (\<lambda>next.
       case next of
         Return b \<Rightarrow> ret b
       | Continue \<Rightarrow> retry_loop page totp_secret attempts)"

definition handle_2fa_verification :: "twofa_page \<Rightarrow> string option \<Rightarrow> (exn, bool) run" where
  "handle_2fa_verification page totp_secret =
     then_do (log_step StepTwoFactor) (\<lambda>_.
     case totp_secret of
       None \<Rightarrow> then_do (log_step MissingSecret) (\<lambda>_. ret False)
     | Some secret \<Rightarrow>
         if secret = [] then then_do (log_step MissingSecret) (\<lambda>_. ret False)
         else retry_loop page secret [0..<MAX_2FA_RETRIES])"

subsection \<open>What a run of the two-factor prompt meets\<close>

text \<open>Some selector of the list is visible and its click returns.\<close>

definition clickable :: "(string \<Rightarrow> exn + bool) \<Rightarrow> (string \<Rightarrow> exn + unit) \<Rightarrow> string list \<Rightarrow> bool" where
  "clickable is_visible click selectors =
     list_ex (\<lambda>s. is_visible s = Inr True \<and> click s = Inr ()) selectors"

text \<open>No call of the attempt is cut short by an interrupt of the user.\<close>

definition no_interrupt :: "twofa_attempt \<Rightarrow> bool" where
  "no_interrupt a =
     (clear_input a \<noteq> Inl KeyboardInterrupt \<and> fill_code a \<noteq> Inl KeyboardInterrupt
      \<and> press_enter a \<noteq> Inl KeyboardInterrupt \<and> load_state a \<noteq> Inl KeyboardInterrupt)"

text \<open>
  The attempt gets as far as the check of the location after the submission (line 224):
  a code is generated, a code field is found, clearing and filling it return, the form is
  submitted by a click or by the Enter key, and the wait for the network returns or
  times out.
\<close>

definition reaches_check :: "twofa_attempt \<Rightarrow> string \<Rightarrow> bool" where
  "reaches_check a totp_secret =
     (\<not> isl (totp_now a totp_secret)
      \<and> first_visible (input_visible a) input_selectors \<noteq> None
      \<and> clear_input a = Inr () \<and> fill_code a = Inr ()
      \<and> (clickable (submit_visible a) (submit_click a) submit_selectors \<or> press_enter a = Inr ())
      \<and> (load_state a = Inr () \<or> load_state a = Inl PlaywrightTimeout))"

subsection \<open>Scripted pages for the two-factor prompt\<close>

text \<open>
  pyotp decodes the seed as base32 and raises on any other character.  The scripted
  generator does the same and answers a fixed code.
\<close>

definition base32_alphabet :: string where
  "base32_alphabet = ''ABCDEFGHIJKLMNOPQRSTUVWXYZabcdefghijklmnopqrstuvwxyz234567=''"

definition scripted_totp :: "string \<Rightarrow> exn + string" where
  "scripted_totp secret =
     (if list_all (\<lambda>c. c \<in> set base32_alphabet) secret then Inr ''123456''
      else Inl OtherException)"

text \<open>An attempt on a page that shows the code field and stays on the prompt.\<close>

definition rejecting_attempt :: twofa_attempt where
  "rejecting_attempt =
     \<lparr>totp_now = scripted_totp,
      input_visible = (\<lambda>selector. Inr (selector = ''#app_totp'')),
      clear_input = Inr (),
      fill_code = Inr (),
      submit_visible = (\<lambda>selector. Inr (selector = ''button[type='submit']'')),
      submit_click = (\<lambda>selector. Inr ()),
      press_enter = Inr (),
      load_state = Inr (),
      url_after_submit = ''https://github.com/sessions/two-factor/app'',
      wall_clock = 1000\<rparr>"

definition rejecting_page :: twofa_page where
  "rejecting_page = (\<lambda>attempt. rejecting_attempt)"

text \<open>The same page, with no code field on the second attempt.\<close>

definition flaky_page :: twofa_page where
  "flaky_page =
     (\<lambda>attempt. if attempt = 1
                then rejecting_attempt\<lparr>input_visible := (\<lambda>selector. Inr False)\<rparr>
                else rejecting_attempt)"

text \<open>A page that accepts the code of the second attempt.\<close>

definition accepting_second_page :: twofa_page where
  "accepting_second_page =
     (\<lambda>attempt. if attempt = 1
                then rejecting_attempt\<lparr>url_after_submit := ''https://ap-northeast-1.run.claw.cloud/''\<rparr>
                else rejecting_attempt)"


section \<open>handle\_device\_verification (lines 265-303)\<close>

text \<open>
  The page, as the location \<^verbatim>\<open>page.url\<close> shows after that many seconds of polling.
  The \<^verbatim>\<open>try\<close> of lines 281-291 guards \<^verbatim>\<open>page.evaluate\<close>, whose failure is
  swallowed and changes nothing.
\<close>

type_synonym device_page = "nat \<Rightarrow> string"

text \<open>Lines 284 and 296: the location has left the device-verification page.\<close>

definition left_device_verification :: "string \<Rightarrow> bool" where
  "left_device_verification current_url =
     (\<not> py_in ''verified-device'' current_url \<and> \<not> py_in ''device-verification'' current_url)"

text \<open>
  \<^verbatim>\<open>for i in range(60)\<close> with the seconds slept so far, then the final check of
  lines 293-303.
\<close>

fun poll_loop :: "device_page \<Rightarrow> nat \<Rightarrow> nat list \<Rightarrow> (exn, bool) run" where
  "poll_loop page elapsed [] =
     (if left_device_verification (page elapsed)
      then then_do (log_step DeviceVerified) (\<lambda>_. ret True)
      else then_do (log_step DeviceVerificationTimeout) (\<lambda>_. ret False))"
| "poll_loop page elapsed (i # rest) =
     then_do (sleep 1) (\<lambda>_.
     if i mod 10 = 0 then
       (if left_device_verification (page (elapsed + 1))
        then then_do (log_step DeviceVerified) (\<lambda>_. ret True)
        else poll_loop page (elapsed + 1) rest)
     else poll_loop page (elapsed + 1) rest)"

definition handle_device_verification :: "device_page \<Rightarrow> (exn, bool) run" where
  "handle_device_verification page =
     then_do (log_step StepDeviceVerification) (\<lambda>_.
     poll_loop page 0 [0..<60])"

text \<open>The seconds of polling after which the location is read.\<close>

definition check_seconds :: "nat list" where
  "check_seconds = [1, 11, 21, 31, 41, 51, 60]"

text \<open>A page that leaves the device verification at second 45.\<close>

definition page_leaving_at_45 :: device_page where
  "page_leaving_at_45 =
     (\<lambda>second. if second < 45 then ''https://github.com/sessions/verified-device''
               else ''https://github.com/login/oauth/authorize'')"

text \<open>A page that never leaves it.\<close>

definition page_never_verified :: device_page where
  "page_never_verified = (\<lambda>second. ''https://github.com/sessions/verified-device'')"


section \<open>fill\_github\_credentials (lines 60-100)\<close>

record credentials_page =
  wait_login_field :: "exn + unit"            \<comment> \<open>\<^verbatim>\<open>page.wait_for_selector("#login_field", ...)\<close>\<close>
  fill_field :: "nat \<Rightarrow> exn + unit"           \<comment> \<open>the four \<^verbatim>\<open>page.fill\<close> calls, in order\<close>
  commit_visible :: "string \<Rightarrow> exn + bool"
  commit_click :: "string \<Rightarrow> exn + unit"

definition login_submit_selectors :: "string list" where
  "login_submit_selectors =
     [''input[name='commit']'',
      ''input[type='submit']'',
      ''button[type='submit']'',
      ''button:has-text('Sign in')'']"

definition fill_github_credentials :: "credentials_page \<Rightarrow> string \<Rightarrow> string \<Rightarrow> (exn, bool) run" where
  "fill_github_credentials page username password =
     then_do (log_step StepCredentials) (\<lambda>_.
     try_except is_Exception
       (then_do (call (wait_login_field page)) (\<lambda>_.
        then_do (perform (Filled ''#login_field'' []) (fill_field page 0)) (\<lambda>_.
        then_do (perform (Filled ''#login_field'' username) (fill_field page 1)) (\<lambda>_.
        then_do (perform (Filled ''#password'' []) (fill_field page 2)) (\<lambda>_.
        then_do (perform (Filled ''#password'' password) (fill_field page 3)) (\<lambda>_.
        then_do (try_click (commit_visible page) (commit_click page) login_submit_selectors)
          (\<lambda>clicked.
        if clicked then ret True
        else then_do (log_step SubmitControlNotFound) (\<lambda>_. ret False))))))))
       (\<lambda>e. then_do (log_step FillCredentialsFailed) (\<lambda>_. ret False)))"

section \<open>handle\_oauth\_authorization (lines 306-324)\<close>

record oauth_page =
  authorize_visible :: "string \<Rightarrow> exn + bool"
  authorize_click :: "string \<Rightarrow> exn + unit"

definition authorize_selectors :: "string list" where
  "authorize_selectors =
     [''button[name='authorize']'',
      ''button:has-text('Authorize')'',
      ''input[name='authorize']'',
      ''button.btn-primary:has-text('Authorize')'']"

definition handle_oauth_authorization :: "oauth_page \<Rightarrow> (exn, bool) run" where
  "handle_oauth_authorization page =
     then_do (log_step StepOAuth) (\<lambda>_.
     then_do (try_click (authorize_visible page) (authorize_click page) authorize_selectors)
       (\<lambda>clicked.
     if clicked then then_do (sleep 3) (\<lambda>_. ret True)
     else ret False))"

section \<open>run\_login (lines 386-539)\<close>

text \<open>
  The world of one run: the environment, and what the page answers at each place of
  the flow.  Launching the browser, opening the context and the page, and closing the
  browser are taken to return.
\<close>

record world =
  environ :: "string \<Rightarrow> string option"       \<comment> \<open>\<^verbatim>\<open>os.environ.get\<close>\<close>
  goto_result :: "exn + unit"                 \<comment> \<open>line 431\<close>
  load_home :: "exn + unit"                   \<comment> \<open>line 432\<close>
  provider_visible :: "string \<Rightarrow> exn + bool"
  provider_click :: "string \<Rightarrow> exn + unit"
  url_home :: string                          \<comment> \<open>line 448\<close>
  load_provider :: "exn + unit"               \<comment> \<open>line 458\<close>
  url_provider :: string                      \<comment> \<open>line 460\<close>
  credentials :: credentials_page
  load_after_login :: "exn + unit"            \<comment> \<open>line 471\<close>
  url_after_login :: string                   \<comment> \<open>line 472\<close>
  device :: device_page
  url_after_device :: string                  \<comment> \<open>line 480\<close>
  twofa :: twofa_page
  url_after_2fa :: string                     \<comment> \<open>line 488\<close>
  oauth :: oauth_page
  load_after_oauth :: "exn + unit"            \<comment> \<open>line 495\<close>
  load_final :: "exn + unit"                  \<comment> \<open>line 502\<close>
  verify :: verify_page

definition CLAW_CLOUD_URL :: string where
  "CLAW_CLOUD_URL = ''https://ap-northeast-1.run.claw.cloud/''"

definition github_button_selectors :: "string list" where
  "github_button_selectors =
     [''button:has-text('GitHub')'',
      ''a:has-text('GitHub')'',
      ''[data-provider='github']'',
      ''button[data-test='github-login']'',
      ''.github-login-button'']"

text \<open>
  What leaves the \<^verbatim>\<open>try\<close> of \<^verbatim>\<open>run_login\<close>: an exception of a call, or the
  \<^verbatim>\<open>SystemExit\<close> of \<^verbatim>\<open>sys.exit\<close>, which is no \<^verbatim>\<open>Exception\<close> either.
\<close>

datatype abort = Raised exn | SystemExit int

definition lift :: "(exn, 'a) run \<Rightarrow> (abort, 'a) run" where
  "lift m = (case m of (Inl e, t) \<Rightarrow> (Inl (Raised e), t) | (Inr x, t) \<Rightarrow> (Inr x, t))"

definition sys_exit :: "int \<Rightarrow> (abort, 'a) run" where
  "sys_exit code = throw (SystemExit code)"

text \<open>The value of an environment variable that is set.\<close>

definition str_of :: "string option \<Rightarrow> string" where
  "str_of v = (case v of None \<Rightarrow> [] | Some s \<Rightarrow> s)"

text \<open>Lines 429-458: steps 3 to 5.\<close>

definition open_provider :: "world \<Rightarrow> (abort, unit) run" where
  "open_provider w =
     then_do (log_step StepVisit) (\<lambda>_.
     then_do (lift (perform (Goto CLAW_CLOUD_URL) (goto_result w))) (\<lambda>_.
     then_do (lift (call (load_home w))) (\<lambda>_.
     then_do (sleep 2) (\<lambda>_.
     then_do (log_step StepFindProviderButton) (\<lambda>_.
     then_do (lift (try_click (provider_visible w) (provider_click w) github_button_selectors))
       (\<lambda>clicked.
     then_do (if \<not> clicked then
                (if \<not> py_in ''signin'' (lower (url_home w)) then log_step AlreadyLoggedIn
                 else then_do (log_step ProviderButtonNotFound) (\<lambda>_. sys_exit 1))
              else ret ()) (\<lambda>_.
     then_do (log_step StepWaitProvider) (\<lambda>_.
     then_do (sleep 3) (\<lambda>_.
     lift (call (load_provider w)))))))))))"

text \<open>Lines 463-473: step 6.\<close>

definition step_credentials :: "world \<Rightarrow> string \<Rightarrow> string \<Rightarrow> string \<Rightarrow> (abort, string) run" where
  "step_credentials w username password current_url =
     (if py_in ''github.com/login'' current_url \<or> py_in ''github.com/session'' current_url then
        then_do (lift (fill_github_credentials (credentials w) username password)) (\<lambda>ok.
        then_do (if \<not> ok then then_do (log_step GitHubLoginFailed) (\<lambda>_. sys_exit 1)
                 else ret ()) (\<lambda>_.
        then_do (sleep 3) (\<lambda>_.
        then_do (lift (call (load_after_login w))) (\<lambda>_.
        ret (url_after_login w)))))
      else ret current_url)"

text \<open>Lines 475-480: step 7.\<close>

definition step_device :: "world \<Rightarrow> string \<Rightarrow> (abort, string) run" where
  "step_device w current_url =
     (if py_in ''verified-device'' current_url \<or> py_in ''device-verification'' current_url then
        then_do (lift (handle_device_verification (device w))) (\<lambda>ok.
        then_do (if \<not> ok then then_do (log_step DeviceVerificationFailed) (\<lambda>_. sys_exit 1)
                 else ret ()) (\<lambda>_.
        ret (url_after_device w)))
      else ret current_url)"

text \<open>Lines 482-488: step 8.\<close>

definition step_two_factor :: "world \<Rightarrow> string option \<Rightarrow> string \<Rightarrow> (abort, string) run" where
  "step_two_factor w totp_secret current_url =
     (if py_in ''two-factor'' current_url \<or> py_in ''sessions/two-factor'' current_url then
        then_do (lift (handle_2fa_verification (twofa w) totp_secret)) (\<lambda>ok.
        then_do (if \<not> ok then then_do (log_step TwoFactorFailed) (\<lambda>_. sys_exit 1)
                 else ret ()) (\<lambda>_.
        ret (url_after_2fa w)))
      else ret current_url)"

text \<open>Lines 490-495: step 9.\<close>

definition step_oauth :: "world \<Rightarrow> string \<Rightarrow> (abort, unit) run" where
  "step_oauth w current_url =
     then_do (sleep 2) (\<lambda>_.
     if py_in ''github.com/login/oauth/authorize'' current_url then
       then_do (lift (handle_oauth_authorization (oauth w))) (\<lambda>_.
       then_do (sleep 3) (\<lambda>_.
       lift (call (load_after_oauth w))))
     else ret ())"

text \<open>Lines 497-519: steps 10 and 11.\<close>

definition step_final :: "world \<Rightarrow> (abort, unit) run" where
  "step_final w =
     then_do (log_step StepFinalWait) (\<lambda>_.
     then_do (sleep FINAL_WAIT) (\<lambda>_.
     then_do (lift (try_except (\<lambda>e. e = PlaywrightTimeout) (call (load_final w)) (\<lambda>e. ret ())))
       (\<lambda>_.
     then_do (lift (verify_login_success (verify w))) (\<lambda>ok.
     if ok then log_step LoginSucceeded
     else then_do (log_step LoginUnconfirmed) (\<lambda>_. sys_exit 1)))))"

text \<open>The body of the \<^verbatim>\<open>try\<close>, lines 429-519.\<close>

definition login_flow :: "world \<Rightarrow> string \<Rightarrow> string \<Rightarrow> string option \<Rightarrow> (abort, unit) run" where
  "login_flow w username password totp_secret =
     then_do (open_provider w) (\<lambda>_.
     then_do (step_credentials w username password (url_provider w)) (\<lambda>current_url.
     then_do (step_device w current_url) (\<lambda>current_url.
     then_do (step_two_factor w totp_secret current_url) (\<lambda>current_url.
     then_do (step_oauth w current_url) (\<lambda>_.
     step_final w)))))"

text \<open>
  Lines 410-539: the browser is launched, the flow runs inside the \<^verbatim>\<open>try\<close>, and the
  handlers and the \<^verbatim>\<open>finally\<close> decide the exit code of the process.  A flow that
  returns ends the process with code 0.
\<close>

definition browser_session :: "world \<Rightarrow> string \<Rightarrow> string \<Rightarrow> string option \<Rightarrow> int \<times> event list" where
  "browser_session w username password totp_secret =
     (case login_flow w username password totp_secret of
        (Inr u, t) \<Rightarrow> (0, [LaunchBrowser, NewPage] @ t @ [CloseBrowser])
      | (Inl (SystemExit code), t) \<Rightarrow> (code, [LaunchBrowser, NewPage] @ t @ [CloseBrowser])
      | (Inl (Raised KeyboardInterrupt), t) \<Rightarrow>
          (130, [LaunchBrowser, NewPage] @ t @ [Logged UserInterrupted, CloseBrowser])
      | (Inl (Raised e), t) \<Rightarrow>
          (1, [LaunchBrowser, NewPage] @ t @ [Logged UnhandledException, CloseBrowser]))"

text \<open>The exit code of the process and the trace of the run.\<close>

definition run_login :: "world \<Rightarrow> int \<times> event list" where
  "run_login w =
     (let username = environ w ''GH_USERNAME'';
          password = environ w ''GH_PASSWORD'';
          totp_secret = environ w ''GH_2FA_SECRET''
      in if falsy username \<or> falsy password then (1, [Logged MissingCredentials])
         else browser_session w (str_of username) (str_of password) totp_secret)"

subsection \<open>Scripted worlds\<close>

text \<open>A login that passes GitHub's form and the two-factor prompt at the first code.\<close>

definition accepting_page :: twofa_page where
  "accepting_page =
     (\<lambda>attempt. rejecting_attempt\<lparr>url_after_submit := ''https://ap-northeast-1.run.claw.cloud/''\<rparr>)"

definition login_world :: world where
  "login_world =
     \<lparr>environ = [''GH_USERNAME'' \<mapsto> ''octocat'', ''GH_PASSWORD'' \<mapsto> ''hunter2'',
                 ''GH_2FA_SECRET'' \<mapsto> ''JBSWY3DPEHPK3PXP''],
      goto_result = Inr (),
      load_home = Inr (),
      provider_visible = (\<lambda>selector. Inr (selector = ''button:has-text('GitHub')'')),
      provider_click = (\<lambda>selector. Inr ()),
      url_home = ''https://ap-northeast-1.run.claw.cloud/signin'',
      load_provider = Inr (),
      url_provider = ''https://github.com/login?client_id=abc'',
      credentials =
        \<lparr>wait_login_field = Inr (), fill_field = (\<lambda>k. Inr ()),
         commit_visible = (\<lambda>selector. Inr (selector = ''input[name='commit']'')),
         commit_click = (\<lambda>selector. Inr ())\<rparr>,
      load_after_login = Inr (),
      url_after_login = ''https://github.com/sessions/two-factor/app'',
      device = page_never_verified,
      url_after_device = ''https://github.com/sessions/two-factor/app'',
      twofa = accepting_page,
      url_after_2fa = ''https://ap-northeast-1.run.claw.cloud/'',
      oauth = \<lparr>authorize_visible = (\<lambda>selector. Inr False), authorize_click = (\<lambda>selector. Inr ())\<rparr>,
      load_after_oauth = Inr (),
      load_final = Inr (),
      verify = page_two_signals\<rparr>"

text \<open>The same world with the password unset.\<close>

definition world_without_password :: world where
  "world_without_password = login_world\<lparr>environ := [''GH_USERNAME'' \<mapsto> ''octocat'']\<rparr>"

text \<open>The same world with no submit control on GitHub's form.\<close>

definition world_without_submit :: world where
  "world_without_submit =
     login_world\<lparr>credentials := (credentials login_world)\<lparr>commit_visible := (\<lambda>selector. Inr False)\<rparr>\<rparr>"

text \<open>The same world where the username field never shows.\<close>

definition world_without_login_field :: world where
  "world_without_login_field =
     login_world\<lparr>credentials := (credentials login_world)\<lparr>wait_login_field := Inl PlaywrightTimeout\<rparr>\<rparr>"

text \<open>The same world with the user interrupting the first navigation.\<close>

definition world_interrupted :: world where
  "world_interrupted = login_world\<lparr>goto_result := Inl KeyboardInterrupt\<rparr>"

text \<open>The same world with the first navigation failing.\<close>

definition world_goto_fails :: world where
  "world_goto_fails = login_world\<lparr>goto_result := Inl OtherException\<rparr>"

text \<open>The same world with no provider button on the sign-in page.\<close>

definition world_without_provider_button :: world where
  "world_without_provider_button = login_world\<lparr>provider_visible := (\<lambda>selector. Inr False)\<rparr>"

text \<open>The same world with a device verification that nobody approves.\<close>

definition world_device_timeout :: world where
  "world_device_timeout =
     login_world\<lparr>url_after_login := ''https://github.com/sessions/verified-device''\<rparr>"

text \<open>The same world with no seed in the environment.\<close>

definition world_without_seed :: world where
  "world_without_seed =
     login_world\<lparr>environ := [''GH_USERNAME'' \<mapsto> ''octocat'', ''GH_PASSWORD'' \<mapsto> ''hunter2'']\<rparr>"

text \<open>The same world ending on a page with one signal only.\<close>

definition world_unconfirmed :: world where
  "world_unconfirmed = login_world\<lparr>verify := page_one_signal\<rparr>"

subsection \<open>What a run of the login meets\<close>

text \<open>The wait for the username field and the four fills, in the order of the calls.\<close>

definition form_calls :: "credentials_page \<Rightarrow> (exn + unit) list" where
  "form_calls page =
     [wait_login_field page, fill_field page 0, fill_field page 1, fill_field page 2,
      fill_field page 3]"

text \<open>The credentials of the environment.\<close>

definition has_credentials :: "world \<Rightarrow> bool" where
  "has_credentials w = (\<not> falsy (environ w ''GH_USERNAME'') \<and> \<not> falsy (environ w ''GH_PASSWORD''))"

definition username_of :: "world \<Rightarrow> string" where
  "username_of w = str_of (environ w ''GH_USERNAME'')"

definition password_of :: "world \<Rightarrow> string" where
  "password_of w = str_of (environ w ''GH_PASSWORD'')"

definition secret_of :: "world \<Rightarrow> string option" where
  "secret_of w = environ w ''GH_2FA_SECRET''"

text \<open>
  The flow from its start through a step: it returns, with the location the step leaves
  in \<^verbatim>\<open>current_url\<close>, when the run gets past that step.
\<close>

definition through_credentials :: "world \<Rightarrow> (abort, string) run" where
  "through_credentials w =
     then_do (open_provider w) (\<lambda>_.
     step_credentials w (username_of w) (password_of w) (url_provider w))"

definition through_device :: "world \<Rightarrow> (abort, string) run" where
  "through_device w = then_do (through_credentials w) (step_device w)"

definition through_two_factor :: "world \<Rightarrow> (abort, string) run" where
  "through_two_factor w = then_do (through_device w) (step_two_factor w (secret_of w))"

definition through_oauth :: "world \<Rightarrow> (abort, unit) run" where
  "through_oauth w = then_do (through_two_factor w) (step_oauth w)"

text \<open>The body of the \<^verbatim>\<open>try\<close> with the credentials of the environment.\<close>

definition flow_of :: "world \<Rightarrow> (abort, unit) run" where
  "flow_of w = login_flow w (username_of w) (password_of w) (secret_of w)"

text \<open>The log lines of the failures that end the process from inside the program.\<close>

definition programmatic_failures :: "message list" where
  "programmatic_failures =
     [MissingCredentials, ProviderButtonNotFound, SubmitControlNotFound,
      DeviceVerificationTimeout, TwoFactorFailed, LoginUnconfirmed, UnhandledException]"

text \<open>The log lines that open the steps after the credentials.\<close>

definition later_steps :: "message list" where
  "later_steps = [StepDeviceVerification, StepTwoFactor, StepOAuth, StepFinalWait, StepVerify]"

text \<open>
  A part of the flow exits as it logs: every \<^verbatim>\<open>sys.exit\<close> in it has code 1, it logs
  none of the lines of \<^verbatim>\<open>run_login\<close>'s own handlers, and once it has logged a failure
  it leaves by \<^verbatim>\<open>sys.exit(1)\<close>.
\<close>

definition exits_as_logged :: "(abort, 'a) run \<Rightarrow> bool" where
  "exits_as_logged m =
     ((\<forall>code. fst m = Inl (SystemExit code) \<longrightarrow> code = 1)
      \<and> (fst m \<noteq> Inl (SystemExit 1) \<longrightarrow>
           set (messages (snd m)) \<inter>
             {ProviderButtonNotFound, SubmitControlNotFound, DeviceVerificationTimeout,
              TwoFactorFailed, LoginUnconfirmed} = {})
      \<and> set (messages (snd m)) \<inter> {MissingCredentials, UserInterrupted, UnhandledException} = {})"

section \<open>Properties\<close>

subsection \<open>Substrings\<close>

lemma py_in_sublist: "py_in sub s = sublist sub s"
  by (induction s) (auto simp: sublist_Cons_right)

lemma py_in_trans: "py_in a b \<Longrightarrow> py_in b c \<Longrightarrow> py_in a c"
  unfolding py_in_sublist by (rule sublist_order.order.trans)

subsection \<open>Running computations\<close>

lemma then_do_Inl: "then_do (Inl e, t) f = (Inl e, t)"
  by (simp add: then_do_def)

lemma then_do_Inr: "then_do (Inr x, t) f = (case f x of (r, t') \<Rightarrow> (r, t @ t'))"
  by (simp add: then_do_def)

text \<open>For running a computation on a scripted world.\<close>

lemmas run_eval = then_do_Inl then_do_Inr ret_def throw_def emit_def sleep_def log_step_def
  perform_def call_def try_except_def

text \<open>The result and the trace of a computation, taken apart.\<close>

lemma fst_then_do:
  "fst (then_do m f) = (case fst m of Inl e \<Rightarrow> Inl e | Inr x \<Rightarrow> fst (f x))"
  by (cases m) (simp add: then_do_def split: sum.splits prod.splits)

lemma snd_then_do:
  "snd (then_do m f) = (case fst m of Inl e \<Rightarrow> snd m | Inr x \<Rightarrow> snd m @ snd (f x))"
  by (cases m) (simp add: then_do_def split: sum.splits prod.splits)

lemma fst_try_except:
  "fst (try_except C m h) =
     (case fst m of Inl e \<Rightarrow> (if C e then fst (h e) else Inl e) | Inr x \<Rightarrow> Inr x)"
  by (cases m) (simp add: try_except_def split: sum.splits prod.splits)

lemma snd_try_except:
  "snd (try_except C m h) =
     (case fst m of Inl e \<Rightarrow> (if C e then snd m @ snd (h e) else snd m) | Inr x \<Rightarrow> snd m)"
  by (cases m) (simp add: try_except_def split: sum.splits prod.splits)

lemma fst_prims:
  "fst (ret x) = Inr x" "fst (throw e) = Inl e" "fst (emit ev) = Inr ()"
  "fst (sleep d) = Inr ()" "fst (log_step msg) = Inr ()"
  "fst (perform ev r) = r" "fst (call r) = r"
  by (simp_all add: ret_def throw_def emit_def sleep_def log_step_def perform_def call_def
      split: sum.splits)

lemma snd_prims:
  "snd (ret x) = []" "snd (throw e) = []" "snd (emit ev) = [ev]"
  "snd (sleep d) = [Slept d]" "snd (log_step msg) = [Logged msg]"
  "snd (perform ev r) = (case r of Inl e \<Rightarrow> [] | Inr x \<Rightarrow> [ev])" "snd (call r) = []"
  by (simp_all add: ret_def throw_def emit_def sleep_def log_step_def perform_def call_def
      split: sum.splits)

lemmas run_fst = fst_then_do fst_try_except fst_prims
lemmas run_snd = snd_then_do snd_try_except snd_prims

subsection \<open>The success heuristic\<close>

lemma found_simps [simp]: "found (Inr n) = (n > 0)" "found (Inl e) = False"
  by (simp_all add: found_def)

lemma length_text_check: "length (text_check cnt ts) = of_bool (\<exists>t \<in> set ts. found (cnt t))"
proof (induction ts)
  case Nil
  show ?case by simp
next
  case (Cons t ts)
  show ?case
    by (cases "cnt t") (simp_all add: Cons.IH)
qed

lemma length_menu_check:
  "\<forall>s \<in> set ss. \<not> isl (cnt s) \<Longrightarrow>
   length (menu_check cnt ss) = of_bool (\<exists>s \<in> set ss. found (cnt s))"
proof (induction ss)
  case Nil
  show ?case by simp
next
  case (Cons s ss)
  then show ?case
    by (cases "cnt s") simp_all
qed

lemma length_menu_check_le: "length (menu_check cnt ss) \<le> 1"
  by (induction ss) (auto split: sum.splits)

lemma lists_of_the_code:
  "page_text_checks = landmark_phrases" "user_menu_selectors = user_menu_patterns"
  by (simp_all add: page_text_checks_def landmark_phrases_def user_menu_selectors_def
      user_menu_patterns_def)

lemma length_success_indicators:
  "menu_lookups_return p \<Longrightarrow> length (success_indicators p) = check_tally p"
  by (simp add: success_indicators_def check_tally_def url_mentions_target_def
      url_omits_provider_def landmark_found_def user_menu_found_def menu_lookups_return_def
      length_text_check length_menu_check lists_of_the_code)

lemma fst_verify_login_success:
  "fst (verify_login_success p) = Inr (2 \<le> length (success_indicators p))"
  by (simp add: verify_login_success_def run_fst)

text \<open>For running the heuristic on a scripted page.\<close>

lemmas verify_eval = success_indicators_def page_text_checks_def user_menu_selectors_def
  landmark_phrases_def user_menu_patterns_def claimed_tally_def claimed_target_url_def
  claimed_off_provider_def landmark_found_def user_menu_found_def on_site_def url_host_def
  check_tally_def url_mentions_target_def url_omits_provider_def menu_lookups_return_def
  page_two_signals_def page_one_signal_def page_oauth_consent_def page_menu_lookup_raises_def

text \<open>
  C1, as amended.  When no user-menu lookup raises, \<open>verify_login_success\<close> answers
  True exactly when at least 2 of its 4 checks hold: the URL string holds
  \<open>claw.cloud\<close> and not \<open>signin\<close>; the URL string does not hold \<open>github.com\<close>; a
  landmark phrase is found in the page text; an element matching a user-menu pattern
  is present.  Each check adds at most one indicator, so the tally is the number of
  checks that hold and is at most 4.  A page with exactly 2 checks passes, a page with
  exactly 1 check fails.
\<close>

theorem verify_login_success_threshold:
  assumes "menu_lookups_return p"
  shows "fst (verify_login_success p) = Inr (2 \<le> check_tally p)
   \<and> length (success_indicators p) = check_tally p
   \<and> check_tally p \<le> 4
   \<and> (check_tally p = 2 \<longrightarrow> fst (verify_login_success p) = Inr True)
   \<and> (check_tally p = 1 \<longrightarrow> fst (verify_login_success p) = Inr False)"
proof -
  have l: "length (success_indicators p) = check_tally p"
    using assms by (rule length_success_indicators)
  have b: "check_tally p \<le> 4"
    by (simp add: check_tally_def)
  show ?thesis
    using l b by (simp add: fst_verify_login_success)
qed

theorem verify_login_success_threshold_counterexample:
  "claimed_tally page_oauth_consent = 1
   \<and> fst (verify_login_success page_oauth_consent) = Inr True
   \<and> claimed_tally page_menu_lookup_raises = 2
   \<and> fst (verify_login_success page_menu_lookup_raises) = Inr False"
proof -
  have a: "claimed_tally page_oauth_consent = 1"
    by (simp add: verify_eval suffix_to_prefix)
  have b: "success_indicators page_oauth_consent = [UrlCorrect, FoundUserMenu]"
    by (simp add: verify_eval)
  have c: "claimed_tally page_menu_lookup_raises = 2"
    by (simp add: verify_eval suffix_to_prefix)
  have d: "success_indicators page_menu_lookup_raises = [LeftGitHub]"
    by (simp add: verify_eval)
  show ?thesis
    by (simp add: a b c d fst_verify_login_success)
qed

theorem verify_login_success_threshold_witness:
  "check_tally page_two_signals = 2
   \<and> fst (verify_login_success page_two_signals) = Inr True
   \<and> check_tally page_one_signal = 1
   \<and> fst (verify_login_success page_one_signal) = Inr False
   \<and> check_tally page_oauth_consent = 2
   \<and> fst (verify_login_success page_oauth_consent) = Inr True"
proof -
  have r: "menu_lookups_return page_two_signals" "menu_lookups_return page_one_signal"
      "menu_lookups_return page_oauth_consent"
    by (simp_all add: verify_eval)
  have two: "check_tally page_two_signals = 2"
    by (simp add: verify_eval)
  have one: "check_tally page_one_signal = 1"
    by (simp add: verify_eval)
  have consent: "check_tally page_oauth_consent = 2"
    by (simp add: verify_eval)
  show ?thesis
    using verify_login_success_threshold [OF r(1)] verify_login_success_threshold [OF r(2)]
      verify_login_success_threshold [OF r(3)] two one consent
    by simp
qed

subsection \<open>The two-factor prompt\<close>

lemma codes_generated_simps [simp]:
  "codes_generated [] = 0"
  "codes_generated (CodeGenerated c # t) = Suc (codes_generated t)"
  "codes_generated (Logged m # t) = codes_generated t"
  "codes_generated (Slept d # t) = codes_generated t"
  "codes_generated (Clicked s # t) = codes_generated t"
  "codes_generated (Filled s v # t) = codes_generated t"
  "codes_generated (Cleared s # t) = codes_generated t"
  "codes_generated (PressedEnter s # t) = codes_generated t"
  "codes_generated (a @ b) = codes_generated a + codes_generated b"
  by (simp_all add: codes_generated_def)

lemma codes_generated_append: "codes_generated (a @ b) = codes_generated a + codes_generated b"
  by (simp add: codes_generated_def)

lemma fst_try_click: "fst (try_click v c ss) = Inr (clickable v c ss)"
  by (induction ss) (auto simp: clickable_def ret_def split: sum.splits bool.splits)

lemma codes_try_click: "codes_generated (snd (try_click v c ss :: (exn, bool) run)) = 0"
  by (induction ss) (auto simp: ret_def split: sum.splits bool.splits)

lemma is_Exception_iff: "is_Exception e = (e \<noteq> KeyboardInterrupt)"
  by (cases e) simp_all

lemma codes_enter_code: "codes_generated (snd (enter_code a i inp c)) = 0"
  by (simp add: enter_code_def run_snd run_fst fst_try_click codes_try_click
      split: sum.splits)

lemma fst_enter_code_rejected:
  "no_interrupt a \<Longrightarrow> \<not> left_two_factor (url_after_submit a) \<Longrightarrow>
   (case fst (enter_code a i inp c) of Inl e \<Rightarrow> is_Exception e | Inr r \<Rightarrow> r = Continue)"
  by (auto simp add: enter_code_def run_fst fst_try_click no_interrupt_def is_Exception_iff
      split: sum.splits)

lemma fst_enter_code_accepted:
  "clear_input a = Inr () \<Longrightarrow> fill_code a = Inr () \<Longrightarrow>
   clickable (submit_visible a) (submit_click a) submit_selectors \<or> press_enter a = Inr () \<Longrightarrow>
   load_state a = Inr () \<or> load_state a = Inl PlaywrightTimeout \<Longrightarrow>
   left_two_factor (url_after_submit a) \<Longrightarrow>
   fst (enter_code a i inp c) = Inr (Return True)"
  by (auto simp add: enter_code_def run_fst fst_try_click 
      split: sum.splits)


lemma fst_attempt_rejected:
  assumes "\<not> isl (totp_now a s)" "no_interrupt a" "\<not> left_two_factor (url_after_submit a)"
  shows "fst (attempt_2fa a s i) =
           Inr (if i = MAX_2FA_RETRIES - 1 \<and> first_visible (input_visible a) input_selectors = None
                then Return False else Continue)"
proof -
  obtain code where code: "totp_now a s = Inr code"
    using assms(1) by (cases "totp_now a s") auto
  show ?thesis
  proof (cases "first_visible (input_visible a) input_selectors")
    case None
    then show ?thesis
      by (simp add: attempt_2fa_def code run_fst)
  next
    case (Some inp)
    show ?thesis
      using fst_enter_code_rejected [OF assms(2,3), of i inp code]
      by (auto simp add: attempt_2fa_def code Some run_fst split: sum.splits)
  qed
qed

lemma codes_attempt:
  "\<not> isl (totp_now a s) \<Longrightarrow> codes_generated (snd (attempt_2fa a s i)) = 1"
  by (cases "totp_now a s")
     (auto simp add: attempt_2fa_def run_snd run_fst codes_enter_code
       split: option.splits sum.splits)

lemma retry_loop_continue:
  assumes "\<forall>i \<in> set is. fst (attempt_2fa (page i) s i) = Inr Continue"
  shows "fst (retry_loop page s (is @ js)) = fst (retry_loop page s js)
         \<and> snd (retry_loop page s (is @ js))
             = concat (map (\<lambda>i. snd (attempt_2fa (page i) s i)) is) @ snd (retry_loop page s js)"
  using assms by (induction "is") (simp_all add: run_fst run_snd)


lemma left_two_factor_iff: "left_two_factor u = (\<not> py_in ''two-factor'' u)"
proof -
  have "py_in ''two-factor'' ''sessions/two-factor''"
    by simp
  then have "py_in ''sessions/two-factor'' u \<Longrightarrow> py_in ''two-factor'' u"
    by (rule py_in_trans)
  then show ?thesis
    by (auto simp: left_two_factor_def)
qed

lemma last_enter_code_accepted:
  "clear_input a = Inr () \<Longrightarrow> fill_code a = Inr () \<Longrightarrow>
   clickable (submit_visible a) (submit_click a) submit_selectors \<or> press_enter a = Inr () \<Longrightarrow>
   load_state a = Inr () \<or> load_state a = Inl PlaywrightTimeout \<Longrightarrow>
   left_two_factor (url_after_submit a) \<Longrightarrow>
   last (snd (enter_code a i inp c)) = Logged TwoFactorAccepted"
  by (auto simp add: enter_code_def run_fst run_snd fst_try_click 
      split: sum.splits)

lemma attempt_accepted:
  assumes "reaches_check a s" "left_two_factor (url_after_submit a)"
  shows "fst (attempt_2fa a s i) = Inr (Return True)
         \<and> last (snd (attempt_2fa a s i)) = Logged TwoFactorAccepted
         \<and> snd (attempt_2fa a s i) \<noteq> []"
proof -
  obtain code where code: "totp_now a s = Inr code"
    using assms(1) by (cases "totp_now a s") (auto simp: reaches_check_def)
  obtain inp where inp: "first_visible (input_visible a) input_selectors = Some inp"
    using assms(1) by (auto simp: reaches_check_def)
  have f: "fst (enter_code a i inp code) = Inr (Return True)"
    using assms by (intro fst_enter_code_accepted) (auto simp: reaches_check_def)
  have l: "last (snd (enter_code a i inp code)) = Logged TwoFactorAccepted"
    using assms by (intro last_enter_code_accepted) (auto simp: reaches_check_def)
  have "clear_input a = Inr ()"
    using assms(1) by (simp add: reaches_check_def)
  then have n: "snd (enter_code a i inp code) \<noteq> []"
    by (simp add: enter_code_def run_fst run_snd split: sum.splits)
  show ?thesis
    using f l n by (simp add: attempt_2fa_def code inp run_fst run_snd)
qed

lemma sum_codes_concat:
  "\<forall>i \<in> set is. codes_generated (f i) = 1 \<Longrightarrow> codes_generated (concat (map f is)) = length is"
  by (induction "is") simp_all

lemma handle_2fa_with_secret:
  assumes "secret \<noteq> []"
  shows "fst (handle_2fa_verification page (Some secret))
           = fst (retry_loop page secret [0..<MAX_2FA_RETRIES])"
    and "snd (handle_2fa_verification page (Some secret))
           = Logged StepTwoFactor # snd (retry_loop page secret [0..<MAX_2FA_RETRIES])"
  using assms by (simp_all add: handle_2fa_verification_def run_fst run_snd)

lemma retry_loop_returns:
  assumes "\<forall>i \<in> set is. fst (attempt_2fa (page i) s i) = Inr Continue"
    and "fst (attempt_2fa (page k) s k) = Inr (Return b)"
  shows "fst (retry_loop page s (is @ k # js)) = Inr b"
    and "snd (retry_loop page s (is @ k # js))
           = concat (map (\<lambda>i. snd (attempt_2fa (page i) s i)) is) @ snd (attempt_2fa (page k) s k)"
  using retry_loop_continue [OF assms(1), of "k # js"] assms(2)
  by (simp_all add: run_fst run_snd)

lemma retry_loop_exhausted:
  assumes "\<forall>i \<in> set is. fst (attempt_2fa (page i) s i) = Inr Continue"
  shows "fst (retry_loop page s is) = Inr False"
    and "snd (retry_loop page s is)
           = concat (map (\<lambda>i. snd (attempt_2fa (page i) s i)) is) @ [Logged RetriesExhausted]"
  using retry_loop_continue [OF assms(1), of "[]"]
  by (simp_all add: run_fst run_snd)


text \<open>For running the prompt on a scripted page.\<close>

lemmas twofa_eval = handle_2fa_verification_def attempt_2fa_def enter_code_def run_eval
  rejecting_page_def rejecting_attempt_def scripted_totp_def base32_alphabet_def MAX_2FA_RETRIES_def
  input_selectors_def submit_selectors_def left_two_factor_def totp_window_sleep_def py_fmod_def
  WAIT_AFTER_2FA_def upt_rec flaky_page_def accepting_second_page_def

lemma never_leaving_three_codes:
  assumes "secret \<noteq> []"
    and "\<forall>i<MAX_2FA_RETRIES. \<not> isl (totp_now (page i) secret)"
    and "\<forall>i<MAX_2FA_RETRIES. no_interrupt (page i)"
    and "\<forall>i<MAX_2FA_RETRIES. py_in ''two-factor'' (url_after_submit (page i))"
  shows "fst (handle_2fa_verification page (Some secret)) = Inr False
         \<and> codes_generated (snd (handle_2fa_verification page (Some secret))) = MAX_2FA_RETRIES"
proof -
  let ?att = "\<lambda>i. attempt_2fa (page i) secret i"
  let ?traces = "\<lambda>is. concat (map (\<lambda>i. snd (?att i)) is)"
  have att: "fst (?att i) = Inr (if i = MAX_2FA_RETRIES - 1
                \<and> first_visible (input_visible (page i)) input_selectors = None
                then Return False else Continue)" if "i < MAX_2FA_RETRIES" for i
    using assms(2-4) that by (intro fst_attempt_rejected) (auto simp: left_two_factor_iff)
  have codes: "\<forall>i \<in> set is. codes_generated (snd (?att i)) = 1"
    if "set is \<subseteq> {..<MAX_2FA_RETRIES}" for "is"
  proof
    fix i assume "i \<in> set is"
    then have "\<not> isl (totp_now (page i) secret)"
      using assms(2) that by auto
    then show "codes_generated (snd (?att i)) = 1"
      by (rule codes_attempt)
  qed
  have result: "fst (retry_loop page secret [0..<MAX_2FA_RETRIES]) = Inr False
                \<and> codes_generated (snd (retry_loop page secret [0..<MAX_2FA_RETRIES])) = MAX_2FA_RETRIES"
  proof (cases "first_visible (input_visible (page (MAX_2FA_RETRIES - 1))) input_selectors")
    case None
    have split: "[0..<MAX_2FA_RETRIES] = [0..<MAX_2FA_RETRIES - 1] @ (MAX_2FA_RETRIES - 1) # []"
      by (simp add: MAX_2FA_RETRIES_def upt_rec)
    have cont: "\<forall>i \<in> set [0..<MAX_2FA_RETRIES - 1]. fst (?att i) = Inr Continue"
      using att by (simp add: MAX_2FA_RETRIES_def)
    have last: "fst (?att (MAX_2FA_RETRIES - 1)) = Inr (Return False)"
      using att [of "MAX_2FA_RETRIES - 1"] None by (simp add: MAX_2FA_RETRIES_def)
    have sub: "set [0..<MAX_2FA_RETRIES - 1] \<subseteq> {..<MAX_2FA_RETRIES}"
      by auto
    have c: "codes_generated (?traces [0..<MAX_2FA_RETRIES - 1]) = MAX_2FA_RETRIES - 1"
      using sum_codes_concat [OF codes [OF sub]] by simp
    have c': "codes_generated (snd (?att (MAX_2FA_RETRIES - 1))) = 1"
      using assms(2) by (intro codes_attempt) (simp add: MAX_2FA_RETRIES_def)
    show ?thesis
      unfolding split retry_loop_returns [OF cont last] codes_generated_append c c'
      by (simp add: MAX_2FA_RETRIES_def)
  next
    case (Some inp)
    have cont: "\<forall>i \<in> set [0..<MAX_2FA_RETRIES]. fst (?att i) = Inr Continue"
      using att Some by simp
    have sub: "set [0..<MAX_2FA_RETRIES] \<subseteq> {..<MAX_2FA_RETRIES}"
      by auto
    have c: "codes_generated (?traces [0..<MAX_2FA_RETRIES]) = MAX_2FA_RETRIES"
      using sum_codes_concat [OF codes [OF sub]] by simp
    show ?thesis
      unfolding retry_loop_exhausted [OF cont] codes_generated_append c
      by simp
  qed
  show ?thesis
    unfolding handle_2fa_with_secret [OF assms(1)] using result by simp
qed


lemma generation_fails_at_once:
  assumes "secret \<noteq> []" "totp_now (page 0) secret = Inl e" "is_Exception e"
  shows "handle_2fa_verification page (Some secret)
           = (Inr False, [Logged StepTwoFactor, Logged CodeGenerationFailed])"
  using assms
  by (simp add: handle_2fa_verification_def MAX_2FA_RETRIES_def upt_rec attempt_2fa_def run_eval)

text \<open>
  C2, as amended.  For every seed that is present and from which a code is generated at
  each attempt, and every page whose location matches the two-factor pattern at every
  check, with no interrupt of the user, \<open>handle_2fa_verification\<close> generates exactly
  \<open>MAX_2FA_RETRIES\<close> codes and returns failure.  Nothing is assumed about the code
  field: an attempt that finds none counts like one whose code is rejected.  For every
  seed that is present and for which the generation of the first code raises an
  \<^verbatim>\<open>Exception\<close>, it returns failure at that first attempt, with no code generated.
\<close>

theorem two_factor_never_leaving:
  assumes "secret \<noteq> []"
  shows "((\<forall>i<MAX_2FA_RETRIES. \<not> isl (totp_now (page i) secret))
          \<and> (\<forall>i<MAX_2FA_RETRIES. no_interrupt (page i))
          \<and> (\<forall>i<MAX_2FA_RETRIES. py_in ''two-factor'' (url_after_submit (page i))) \<longrightarrow>
            fst (handle_2fa_verification page (Some secret)) = Inr False
            \<and> codes_generated (snd (handle_2fa_verification page (Some secret))) = MAX_2FA_RETRIES)
         \<and> (\<forall>e. totp_now (page 0) secret = Inl e \<and> is_Exception e \<longrightarrow>
            handle_2fa_verification page (Some secret)
              = (Inr False, [Logged StepTwoFactor, Logged CodeGenerationFailed])
            \<and> codes_generated (snd (handle_2fa_verification page (Some secret))) = 0)"
proof -
  have a: "fst (handle_2fa_verification page (Some secret)) = Inr False
           \<and> codes_generated (snd (handle_2fa_verification page (Some secret))) = MAX_2FA_RETRIES"
    if "\<forall>i<MAX_2FA_RETRIES. \<not> isl (totp_now (page i) secret)"
      "\<forall>i<MAX_2FA_RETRIES. no_interrupt (page i)"
      "\<forall>i<MAX_2FA_RETRIES. py_in ''two-factor'' (url_after_submit (page i))"
    using assms that by (rule never_leaving_three_codes)
  have b: "handle_2fa_verification page (Some secret)
              = (Inr False, [Logged StepTwoFactor, Logged CodeGenerationFailed])
           \<and> codes_generated (snd (handle_2fa_verification page (Some secret))) = 0"
    if "totp_now (page 0) secret = Inl e" "is_Exception e" for e
    using generation_fails_at_once [of secret page e] assms that by simp
  show ?thesis
    using a b by blast
qed

theorem two_factor_never_leaving_counterexample:
  "(\<forall>i. py_in ''two-factor'' (url_after_submit (rejecting_page i)))
   \<and> handle_2fa_verification rejecting_page (Some ''not base32!'')
       = (Inr False, [Logged StepTwoFactor, Logged CodeGenerationFailed])
   \<and> codes_generated (snd (handle_2fa_verification rejecting_page (Some ''not base32!''))) = 0"
  by (simp add: twofa_eval)

theorem two_factor_never_leaving_witness:
  "fst (handle_2fa_verification flaky_page (Some ''JBSWY3DPEHPK3PXP'')) = Inr False
   \<and> codes_generated (snd (handle_2fa_verification flaky_page (Some ''JBSWY3DPEHPK3PXP''))) = 3
   \<and> handle_2fa_verification rejecting_page (Some ''not base32!'')
       = (Inr False, [Logged StepTwoFactor, Logged CodeGenerationFailed])"
proof -
  have g: "\<forall>i<MAX_2FA_RETRIES. \<not> isl (totp_now (flaky_page i) ''JBSWY3DPEHPK3PXP'')"
    by (simp add: flaky_page_def rejecting_attempt_def scripted_totp_def base32_alphabet_def)
  have n: "\<forall>i<MAX_2FA_RETRIES. no_interrupt (flaky_page i)"
    by (simp add: flaky_page_def rejecting_attempt_def no_interrupt_def)
  have u: "\<forall>i<MAX_2FA_RETRIES. py_in ''two-factor'' (url_after_submit (flaky_page i))"
    by (simp add: flaky_page_def rejecting_attempt_def)
  have r: "totp_now (rejecting_page 0) ''not base32!'' = Inl OtherException"
      "is_Exception OtherException"
    by (simp_all add: rejecting_page_def rejecting_attempt_def scripted_totp_def
        base32_alphabet_def)
  have s: "''JBSWY3DPEHPK3PXP'' \<noteq> []" "''not base32!'' \<noteq> []"
    by simp_all
  show ?thesis
    using two_factor_never_leaving [OF s(1), of flaky_page]
      two_factor_never_leaving [OF s(2), of rejecting_page] g n u r
    by (simp add: MAX_2FA_RETRIES_def)
qed

text \<open>
  C3.  For \<open>1 \<le> N \<le> MAX_2FA_RETRIES\<close>: if the \<open>N\<close>th attempt reaches the check after
  its submission and the location no longer matches the two-factor pattern there, while
  it matched at every earlier check, \<open>handle_2fa_verification\<close> returns success, its
  last event is the log line of that check, and it has generated exactly \<open>N\<close> codes.
\<close>

theorem two_factor_accepted_at_nth:
  assumes "secret \<noteq> []" "1 \<le> N" "N \<le> MAX_2FA_RETRIES"
    and "\<forall>i<N - 1. \<not> isl (totp_now (page i) secret) \<and> no_interrupt (page i)
           \<and> py_in ''two-factor'' (url_after_submit (page i))"
    and "reaches_check (page (N - 1)) secret"
    and "\<not> py_in ''two-factor'' (url_after_submit (page (N - 1)))"
  shows "fst (handle_2fa_verification page (Some secret)) = Inr True
         \<and> codes_generated (snd (handle_2fa_verification page (Some secret))) = N
         \<and> last (snd (handle_2fa_verification page (Some secret))) = Logged TwoFactorAccepted"
proof -
  let ?att = "\<lambda>i. attempt_2fa (page i) secret i"
  let ?traces = "\<lambda>is. concat (map (\<lambda>i. snd (?att i)) is)"
  have cont: "\<forall>i \<in> set [0..<N - 1]. fst (?att i) = Inr Continue"
  proof
    fix i assume "i \<in> set [0..<N - 1]"
    then have i: "i < N - 1" by simp
    then have "i \<noteq> MAX_2FA_RETRIES - 1" using assms(3) by simp
    then show "fst (?att i) = Inr Continue"
      using assms(4) i fst_attempt_rejected [of "page i" secret i]
      by (simp add: left_two_factor_iff)
  qed
  have codes: "\<forall>i \<in> set [0..<N - 1]. codes_generated (snd (?att i)) = 1"
  proof
    fix i assume "i \<in> set [0..<N - 1]"
    then have "\<not> isl (totp_now (page i) secret)"
      using assms(4) by simp
    then show "codes_generated (snd (?att i)) = 1"
      by (rule codes_attempt)
  qed
  have split: "[0..<MAX_2FA_RETRIES] = [0..<N - 1] @ (N - 1) # [N..<MAX_2FA_RETRIES]"
  proof -
    have "[0..<MAX_2FA_RETRIES] = [0..<N - 1] @ [N - 1..<MAX_2FA_RETRIES]"
      using assms(2,3) upt_add_eq_append [of 0 "N - 1" "MAX_2FA_RETRIES - (N - 1)"] by simp
    moreover have "[N - 1..<MAX_2FA_RETRIES] = (N - 1) # [N..<MAX_2FA_RETRIES]"
      using assms(2,3) upt_conv_Cons [of "N - 1" MAX_2FA_RETRIES] by simp
    ultimately show ?thesis by simp
  qed
  have acc: "fst (?att (N - 1)) = Inr (Return True)"
    and lst: "last (snd (?att (N - 1))) = Logged TwoFactorAccepted"
    and ne: "snd (?att (N - 1)) \<noteq> []"
    using attempt_accepted [OF assms(5), of "N - 1"] assms(6) by (simp_all add: left_two_factor_iff)
  have c1: "codes_generated (snd (?att (N - 1))) = 1"
    using assms(5) by (intro codes_attempt) (simp add: reaches_check_def)
  have pre: "codes_generated (?traces [0..<N - 1]) = N - 1"
    using sum_codes_concat [OF codes] by simp
  have result: "fst (retry_loop page secret [0..<MAX_2FA_RETRIES]) = Inr True
      \<and> codes_generated (snd (retry_loop page secret [0..<MAX_2FA_RETRIES])) = N
      \<and> last (snd (retry_loop page secret [0..<MAX_2FA_RETRIES])) = Logged TwoFactorAccepted
      \<and> snd (retry_loop page secret [0..<MAX_2FA_RETRIES]) \<noteq> []"
    unfolding split retry_loop_returns [OF cont acc] codes_generated_append pre c1
    using assms(2) ne lst by simp
  show ?thesis
    unfolding handle_2fa_with_secret [OF assms(1)] using result by simp
qed

theorem two_factor_accepted_at_nth_witness:
  "fst (handle_2fa_verification accepting_second_page (Some ''JBSWY3DPEHPK3PXP'')) = Inr True
   \<and> codes_generated (snd (handle_2fa_verification accepting_second_page (Some ''JBSWY3DPEHPK3PXP''))) = 2
   \<and> last (snd (handle_2fa_verification accepting_second_page (Some ''JBSWY3DPEHPK3PXP'')))
       = Logged TwoFactorAccepted"
proof -
  have "\<forall>i<2 - 1. \<not> isl (totp_now (accepting_second_page i) ''JBSWY3DPEHPK3PXP'')
          \<and> no_interrupt (accepting_second_page i)
          \<and> py_in ''two-factor'' (url_after_submit (accepting_second_page i))"
    by (simp add: accepting_second_page_def rejecting_attempt_def scripted_totp_def
        base32_alphabet_def no_interrupt_def)
  moreover have "reaches_check (accepting_second_page (2 - 1)) ''JBSWY3DPEHPK3PXP''"
    by (simp add: accepting_second_page_def rejecting_attempt_def scripted_totp_def
        base32_alphabet_def reaches_check_def input_selectors_def)
  moreover have "\<not> py_in ''two-factor'' (url_after_submit (accepting_second_page (2 - 1)))"
    by (simp add: accepting_second_page_def rejecting_attempt_def)
  ultimately show ?thesis
    using two_factor_accepted_at_nth [of "''JBSWY3DPEHPK3PXP''" 2 accepting_second_page]
    by (simp add: MAX_2FA_RETRIES_def)
qed

text \<open>
  C9.  The test of line 224 is the single test that \<open>two-factor\<close> is not a substring
  of the location: \<open>two-factor\<close> is a substring of \<open>sessions/two-factor\<close>, so the
  second conjunct adds nothing.
\<close>

theorem two_factor_condition_redundant:
  "left_two_factor u = (\<not> py_in ''two-factor'' u)
   \<and> py_in ''two-factor'' ''sessions/two-factor''"
  by (simp add: left_two_factor_iff)


subsection \<open>The log lines of the two-factor prompt\<close>

lemma messages_append: "messages (a @ b) = messages a @ messages b"
  by (induction a rule: messages.induct) simp_all

lemma messages_try_click: "messages (snd (try_click v c ss :: (exn, bool) run)) = []"
  by (induction ss) (auto simp: ret_def split: sum.splits bool.splits)

lemma messages_enter_code:
  "set (messages (snd (enter_code a i inp c))) \<subseteq> {TwoFactorAccepted, CodeRejected}"
  by (simp add: enter_code_def run_snd run_fst fst_try_click messages_try_click messages_append
      split: sum.splits)

lemma messages_attempt:
  "set (messages (snd (attempt_2fa a s i)))
     \<subseteq> {CodeGenerationFailed, NoInputFound, FillCodeFailed, TwoFactorAccepted, CodeRejected}"
  using messages_enter_code [of a i]
  by (auto simp add: attempt_2fa_def run_snd run_fst messages_append
      split: sum.splits option.splits)

lemma messages_retry_loop:
  "set (messages (snd (retry_loop page s is)))
     \<subseteq> {CodeGenerationFailed, NoInputFound, FillCodeFailed, TwoFactorAccepted, CodeRejected,
         RetriesExhausted}"
proof (induction "is")
  case Nil
  show ?case by (simp add: run_snd run_fst)
next
  case (Cons i "is")
  show ?case
    using messages_attempt [of "page i" s i] Cons.IH
    by (auto simp add: run_snd run_fst messages_append split: sum.splits flow.splits)
qed

text \<open>
  C8.  With the seed absent (unset or empty) \<open>handle_2fa_verification\<close> returns failure
  at once: it logs that the secret is missing, generates no code and makes no attempt.
  With a seed present that line is never logged, whatever the page does; a run whose
  codes are all rejected logs that the retries are exhausted instead.  Both failures
  return \<open>False\<close>: the log line is what tells them apart.
\<close>

theorem missing_secret_fails_at_once:
  "(falsy totp_secret \<longrightarrow>
      handle_2fa_verification page totp_secret
        = (Inr False, [Logged StepTwoFactor, Logged MissingSecret])
      \<and> codes_generated (snd (handle_2fa_verification page totp_secret)) = 0)
   \<and> (\<not> falsy totp_secret \<longrightarrow>
      MissingSecret \<notin> set (messages (snd (handle_2fa_verification page totp_secret))))"
proof -
  have a: "handle_2fa_verification page totp_secret
        = (Inr False, [Logged StepTwoFactor, Logged MissingSecret])" if "falsy totp_secret"
    using that by (auto simp: falsy_def handle_2fa_verification_def run_eval split: option.splits)
  have b: "MissingSecret \<notin> set (messages (snd (handle_2fa_verification page totp_secret)))"
    if nf: "\<not> falsy totp_secret"
  proof -
    obtain secret where s: "totp_secret = Some secret" "secret \<noteq> []"
      using nf by (cases totp_secret) (auto simp: falsy_def)
    show ?thesis
      using messages_retry_loop [of page secret "[0..<MAX_2FA_RETRIES]"]
      unfolding s(1) handle_2fa_with_secret [OF s(2)] by auto
  qed
  show ?thesis
    using a b by simp
qed

theorem missing_secret_fails_at_once_witness:
  "handle_2fa_verification rejecting_page None = (Inr False, [Logged StepTwoFactor, Logged MissingSecret])
   \<and> handle_2fa_verification rejecting_page (Some []) = (Inr False, [Logged StepTwoFactor, Logged MissingSecret])
   \<and> MissingSecret \<notin> set (messages (snd (handle_2fa_verification rejecting_page (Some ''JBSWY3DPEHPK3PXP''))))
   \<and> RetriesExhausted \<in> set (messages (snd (handle_2fa_verification rejecting_page (Some ''JBSWY3DPEHPK3PXP''))))"
proof -
  have "RetriesExhausted \<in> set (messages (snd (handle_2fa_verification rejecting_page (Some ''JBSWY3DPEHPK3PXP''))))"
    by (simp add: twofa_eval)
  then show ?thesis
    using missing_secret_fails_at_once [of None rejecting_page]
      missing_secret_fails_at_once [of "Some []" rejecting_page]
      missing_secret_fails_at_once [of "Some ''JBSWY3DPEHPK3PXP''" rejecting_page]
    by (simp add: falsy_def)
qed

subsection \<open>The wait for the next code\<close>

lemma py_fmod_30: "0 \<le> py_fmod x 30 \<and> py_fmod x 30 < 30"
proof -
  define k :: real where "k = of_int \<lfloor>x / 30\<rfloor>"
  have "k \<le> x / 30" "x / 30 < k + 1"
    unfolding k_def by linarith+
  then have "30 * k \<le> x" "x < 30 * k + 30"
    by linarith+
  then show ?thesis
    unfolding py_fmod_def k_def [symmetric] by linarith
qed

lemma totp_window_sleep_bounds: "2 < totp_window_sleep now \<and> totp_window_sleep now \<le> 32"
  using py_fmod_30 [of now] by (simp add: totp_window_sleep_def)

lemma totp_window_sleep_onto: "2 < d \<Longrightarrow> d \<le> 32 \<Longrightarrow> totp_window_sleep (32 - d) = d"
proof -
  assume "2 < d" "d \<le> 32"
  then have "\<lfloor>(32 - d) / 30\<rfloor> = 0"
    by (simp add: floor_eq_iff)
  then show ?thesis
    by (simp add: totp_window_sleep_def py_fmod_def)
qed


lemma last_attempt_rejected:
  assumes "reaches_check a s" "\<not> left_two_factor (url_after_submit a)" "i < MAX_2FA_RETRIES - 1"
  shows "fst (attempt_2fa a s i) = Inr Continue
         \<and> last (snd (attempt_2fa a s i)) = Slept (totp_window_sleep (wall_clock a))"
proof -
  obtain code where code: "totp_now a s = Inr code"
    using assms(1) by (cases "totp_now a s") (auto simp: reaches_check_def)
  obtain inp where inp: "first_visible (input_visible a) input_selectors = Some inp"
    using assms(1) by (auto simp: reaches_check_def)
  have "fst (enter_code a i inp code) = Inr Continue
        \<and> last (snd (enter_code a i inp code)) = Slept (totp_window_sleep (wall_clock a))
        \<and> snd (enter_code a i inp code) \<noteq> []"
    using assms by (auto simp add: reaches_check_def enter_code_def run_fst run_snd fst_try_click
        split: sum.splits)
  then show ?thesis
    by (simp add: attempt_2fa_def code inp run_fst run_snd)
qed

text \<open>
  C7, as amended.  The sleep of line 250 is \<open>32 - (now mod 30)\<close>: over all wall-clock
  phases it is more than 2 seconds and at most 32 seconds, every duration in that range
  is the sleep of some phase, and it is what an attempt whose code is rejected sleeps
  before the next one.
\<close>

theorem totp_window_sleep_range:
  "2 < totp_window_sleep now \<and> totp_window_sleep now \<le> 32
   \<and> (2 < d \<and> d \<le> 32 \<longrightarrow> totp_window_sleep (32 - d) = d)
   \<and> (reaches_check a s \<and> \<not> left_two_factor (url_after_submit a) \<and> i < MAX_2FA_RETRIES - 1 \<longrightarrow>
        last (snd (attempt_2fa a s i)) = Slept (totp_window_sleep (wall_clock a)))"
  using totp_window_sleep_bounds [of now] totp_window_sleep_onto [of d]
    last_attempt_rejected [of a s i]
  by simp

theorem totp_window_sleep_counterexample:
  "totp_window_sleep 30 = 32 \<and> \<not> (\<exists>now. totp_window_sleep now < 1)"
proof -
  have "totp_window_sleep 30 = 32"
    by (simp add: totp_window_sleep_def py_fmod_def)
  moreover have "\<not> totp_window_sleep now < 1" for now
    using totp_window_sleep_bounds [of now] by simp
  ultimately show ?thesis by simp
qed

theorem totp_window_sleep_range_witness:
  "totp_window_sleep 10 = 22
   \<and> last (snd (attempt_2fa rejecting_attempt ''JBSWY3DPEHPK3PXP'' 0)) = Slept 22
   \<and> 2 < totp_window_sleep 1000 \<and> totp_window_sleep 1000 \<le> 32"
proof -
  have r: "reaches_check rejecting_attempt ''JBSWY3DPEHPK3PXP''"
    by (simp add: rejecting_attempt_def scripted_totp_def base32_alphabet_def reaches_check_def
        input_selectors_def)
  have u: "\<not> left_two_factor (url_after_submit rejecting_attempt)"
    by (simp add: rejecting_attempt_def left_two_factor_def)
  have w: "totp_window_sleep (wall_clock rejecting_attempt) = 22"
    by (simp add: rejecting_attempt_def totp_window_sleep_def py_fmod_def)
  show ?thesis
    using totp_window_sleep_range [of 1000 22 rejecting_attempt "''JBSWY3DPEHPK3PXP''" 0] r u w
    by (simp add: MAX_2FA_RETRIES_def)
qed

subsection \<open>The device verification\<close>

lemma slept_total_append: "slept_total (a @ b) = slept_total a + slept_total b"
  by (induction a rule: slept_total.induct) simp_all

lemma slept_total_replicate: "slept_total (replicate k (Slept 1)) = real k"
  by (induction k) simp_all

lemma poll_loop_skip:
  "\<forall>i \<in> set is. i mod 10 \<noteq> 0 \<Longrightarrow>
   poll_loop page e (is @ js)
     = (fst (poll_loop page (e + length is) js),
        replicate (length is) (Slept 1) @ snd (poll_loop page (e + length is) js))"
proof (induction "is" arbitrary: e)
  case Nil
  show ?case by simp
next
  case (Cons i "is")
  have "poll_loop page (Suc e) (is @ js)
     = (fst (poll_loop page (Suc e + length is) js),
        replicate (length is) (Slept 1) @ snd (poll_loop page (Suc e + length is) js))"
    using Cons.prems by (intro Cons.IH) simp
  then show ?case
    using Cons.prems by (simp add: run_eval)
qed

lemma poll_loop_block:
  assumes "b mod 10 = 0"
  shows "poll_loop page e ([b..<b + 10] @ js)
     = (if left_device_verification (page (e + 1))
        then (Inr True, [Slept 1, Logged DeviceVerified])
        else (fst (poll_loop page (e + 10) js),
              replicate 10 (Slept 1) @ snd (poll_loop page (e + 10) js)))"
proof -
  have split: "[b..<b + 10] = b # [b + 1..<b + 10]"
    by (simp add: upt_rec)
  have skip: "\<forall>i \<in> set [b + 1..<b + 10]. i mod 10 \<noteq> 0"
    using assms by auto presburger
  have rest: "poll_loop page (e + 1) ([b + 1..<b + 10] @ js)
     = (fst (poll_loop page (e + 10) js),
        replicate 9 (Slept 1) @ snd (poll_loop page (e + 10) js))"
    using poll_loop_skip [OF skip, of page "e + 1" js] by (simp add: add.commute add.left_commute)
  have ten: "replicate 10 (Slept 1) = Slept 1 # replicate 9 (Slept 1)"
    by (simp add: numeral_eq_Suc)
  show ?thesis
    unfolding split ten using assms rest by (simp add: run_eval)
qed

lemma poll_loop_from:
  assumes "b mod 10 = 0" "b + 10 \<le> n"
  shows "poll_loop page e [b..<n]
     = (if left_device_verification (page (e + 1))
        then (Inr True, [Slept 1, Logged DeviceVerified])
        else (fst (poll_loop page (e + 10) [b + 10..<n]),
              replicate 10 (Slept 1) @ snd (poll_loop page (e + 10) [b + 10..<n])))"
proof -
  have "[b..<b + 10 + (n - (b + 10))] = [b..<b + 10] @ [b + 10..<b + 10 + (n - (b + 10))]"
    by (rule upt_add_eq_append) simp
  then have "[b..<n] = [b..<b + 10] @ [b + 10..<n]"
    using assms(2) by simp
  then show ?thesis
    using poll_loop_block [OF assms(1), of page e "[b + 10..<n]"] by simp
qed

lemma handle_device_verification_unrolled:
  "handle_device_verification page =
     (case find (\<lambda>k. left_device_verification (page k)) check_seconds of
        Some k \<Rightarrow> (Inr True,
                   Logged StepDeviceVerification # replicate k (Slept 1) @ [Logged DeviceVerified])
      | None \<Rightarrow> (Inr False,
                 Logged StepDeviceVerification # replicate 60 (Slept 1)
                 @ [Logged DeviceVerificationTimeout]))"
proof -
  define Q where "Q e = poll_loop page e [e..<60]" for e
  define left where "left k = left_device_verification (page k)" for k
  define ten where "ten = replicate 10 (Slept 1)"
  have B: "Q e = (if left (e + 1) then (Inr True, [Slept 1, Logged DeviceVerified])
                  else (fst (Q (e + 10)), ten @ snd (Q (e + 10))))"
    if "e mod 10 = 0" "e + 10 \<le> 60" for e
    unfolding Q_def left_def ten_def using that by (rule poll_loop_from)
  have s6: "Q 60 = (if left 60 then (Inr True, [Logged DeviceVerified])
                    else (Inr False, [Logged DeviceVerificationTimeout]))"
    unfolding Q_def left_def by (simp add: run_eval)
  have s5: "Q 50 = (if left 51 then (Inr True, [Slept 1, Logged DeviceVerified])
                    else (fst (Q 60), ten @ snd (Q 60)))"
    using B [of 50] by simp
  have s4: "Q 40 = (if left 41 then (Inr True, [Slept 1, Logged DeviceVerified])
                    else (fst (Q 50), ten @ snd (Q 50)))"
    using B [of 40] by simp
  have s3: "Q 30 = (if left 31 then (Inr True, [Slept 1, Logged DeviceVerified])
                    else (fst (Q 40), ten @ snd (Q 40)))"
    using B [of 30] by simp
  have s2: "Q 20 = (if left 21 then (Inr True, [Slept 1, Logged DeviceVerified])
                    else (fst (Q 30), ten @ snd (Q 30)))"
    using B [of 20] by simp
  have s1: "Q 10 = (if left 11 then (Inr True, [Slept 1, Logged DeviceVerified])
                    else (fst (Q 20), ten @ snd (Q 20)))"
    using B [of 10] by simp
  have s0: "Q 0 = (if left 1 then (Inr True, [Slept 1, Logged DeviceVerified])
                   else (fst (Q 10), ten @ snd (Q 10)))"
    using B [of 0] by simp
  have r: "replicate 60 (Slept 1) = ten @ ten @ ten @ ten @ ten @ ten"
      "replicate 51 (Slept 1) = ten @ ten @ ten @ ten @ ten @ [Slept 1]"
      "replicate 41 (Slept 1) = ten @ ten @ ten @ ten @ [Slept 1]"
      "replicate 31 (Slept 1) = ten @ ten @ ten @ [Slept 1]"
      "replicate 21 (Slept 1) = ten @ ten @ [Slept 1]"
      "replicate 11 (Slept 1) = ten @ [Slept 1]"
    unfolding ten_def by (simp_all add: numeral_eq_Suc)
  have all: "Q 0 =
     (case find left check_seconds of
        Some k \<Rightarrow> (Inr True, replicate k (Slept 1) @ [Logged DeviceVerified])
      | None \<Rightarrow> (Inr False, replicate 60 (Slept 1) @ [Logged DeviceVerificationTimeout]))"
    unfolding s0 s1 s2 s3 s4 s5 s6 check_seconds_def by (simp add: r)
  have "handle_device_verification page = (fst (Q 0), Logged StepDeviceVerification # snd (Q 0))"
    unfolding Q_def handle_device_verification_def by (simp add: run_eval split: prod.splits)
  then show ?thesis
    unfolding all left_def by (simp split: option.splits)
qed

lemma messages_replicate_slept: "messages (replicate k (Slept d)) = []"
  by (induction k) simp_all

lemma page_leaving_at_45_left:
  "left_device_verification (page_leaving_at_45 k) = (45 \<le> k)"
  by (simp add: page_leaving_at_45_def left_device_verification_def)

text \<open>
  C4, as amended.  \<open>handle_device_verification\<close> sleeps up to 60 one-second ticks but
  reads the location only after the seconds 1, 11, 21, 31, 41 and 51, and once more
  after the 60th.  It returns success at the first of these checks where the location
  no longer matches the pattern, having slept that many seconds.  For a page that leaves
  the pattern at second 45 that is the check after second 51, before the 60 seconds are
  over.  If the location matches at every check it fails after 60 seconds, logging
  the timeout.
\<close>

theorem device_verification_polling:
  "handle_device_verification page =
     (case find (\<lambda>k. left_device_verification (page k)) check_seconds of
        Some k \<Rightarrow> (Inr True,
                   Logged StepDeviceVerification # replicate k (Slept 1) @ [Logged DeviceVerified])
      | None \<Rightarrow> (Inr False,
                 Logged StepDeviceVerification # replicate 60 (Slept 1)
                 @ [Logged DeviceVerificationTimeout]))
   \<and> ((\<forall>k. left_device_verification (page k) = (45 \<le> k)) \<longrightarrow>
        fst (handle_device_verification page) = Inr True
        \<and> slept_total (snd (handle_device_verification page)) = 51)
   \<and> ((\<forall>k \<in> set check_seconds. \<not> left_device_verification (page k)) \<longrightarrow>
        fst (handle_device_verification page) = Inr False
        \<and> slept_total (snd (handle_device_verification page)) = 60
        \<and> DeviceVerificationTimeout \<in> set (messages (snd (handle_device_verification page))))"
proof -
  note u = handle_device_verification_unrolled [of page]
  have a: "fst (handle_device_verification page) = Inr True
        \<and> slept_total (snd (handle_device_verification page)) = 51"
    if "\<forall>k. left_device_verification (page k) = (45 \<le> k)"
  proof -
    have "find (\<lambda>k. left_device_verification (page k)) check_seconds = Some 51"
      using that by (simp add: check_seconds_def)
    then show ?thesis
      unfolding u by (simp add: slept_total_append slept_total_replicate)
  qed
  have b: "fst (handle_device_verification page) = Inr False
        \<and> slept_total (snd (handle_device_verification page)) = 60
        \<and> DeviceVerificationTimeout \<in> set (messages (snd (handle_device_verification page)))"
    if "\<forall>k \<in> set check_seconds. \<not> left_device_verification (page k)"
  proof -
    have "find (\<lambda>k. left_device_verification (page k)) check_seconds = None"
      using that by (simp add: find_None_iff)
    then show ?thesis
      unfolding u by (simp add: slept_total_append slept_total_replicate messages_append messages_replicate_slept)
  qed
  show ?thesis
    using u a b by blast
qed

theorem device_verification_polling_counterexample:
  "\<not> left_device_verification (page_leaving_at_45 44)
   \<and> left_device_verification (page_leaving_at_45 45)
   \<and> fst (handle_device_verification page_leaving_at_45) = Inr True
   \<and> slept_total (snd (handle_device_verification page_leaving_at_45)) = 51
   \<and> \<not> slept_total (snd (handle_device_verification page_leaving_at_45)) \<le> 46"
proof -
  have "find (\<lambda>k. left_device_verification (page_leaving_at_45 k)) check_seconds = Some 51"
    by (simp add: check_seconds_def page_leaving_at_45_left)
  then show ?thesis
    unfolding handle_device_verification_unrolled [of page_leaving_at_45]
    by (simp add: slept_total_append slept_total_replicate page_leaving_at_45_left)
qed

theorem device_verification_polling_witness:
  "fst (handle_device_verification page_leaving_at_45) = Inr True
   \<and> slept_total (snd (handle_device_verification page_leaving_at_45)) = 51
   \<and> fst (handle_device_verification page_never_verified) = Inr False
   \<and> slept_total (snd (handle_device_verification page_never_verified)) = 60"
proof -
  have a: "\<forall>k. left_device_verification (page_leaving_at_45 k) = (45 \<le> k)"
    by (simp add: page_leaving_at_45_left)
  have b: "\<forall>k \<in> set check_seconds. \<not> left_device_verification (page_never_verified k)"
    by (simp add: page_never_verified_def left_device_verification_def)
  show ?thesis
    using device_verification_polling [of page_leaving_at_45]
      device_verification_polling [of page_never_verified] a b
    by blast
qed

subsection \<open>The flow of the login\<close>

lemma fst_lift: "fst (lift m) = (case fst m of Inl e \<Rightarrow> Inl (Raised e) | Inr x \<Rightarrow> Inr x)"
  by (cases m) (simp add: lift_def split: sum.splits)

lemma snd_lift: "snd (lift m) = snd m"
  by (cases m) (simp add: lift_def split: sum.splits)

lemma fst_sys_exit: "fst (sys_exit code) = Inl (SystemExit code)"
  by (simp add: sys_exit_def throw_def)

lemma snd_sys_exit: "snd (sys_exit code) = []"
  by (simp add: sys_exit_def throw_def)

lemmas flow_fst = run_fst fst_lift fst_sys_exit
lemmas flow_snd = run_snd snd_lift snd_sys_exit

lemmas flow_eval = run_eval lift_def sys_exit_def

subsection \<open>The credentials\<close>

lemma fst_fill_cases:
  "fst (fill_github_credentials p u pw) = Inr True
   \<or> fst (fill_github_credentials p u pw) = Inr False
   \<or> fst (fill_github_credentials p u pw) = Inl KeyboardInterrupt"
  by (auto simp add: fill_github_credentials_def run_fst fst_try_click is_Exception_iff
      split: sum.splits)

lemma fst_fill_fails:
  assumes "(\<exists>r \<in> set (form_calls p). isl r)
           \<or> \<not> clickable (commit_visible p) (commit_click p) login_submit_selectors"
  shows "fst (fill_github_credentials p u pw) \<noteq> Inr True"
  using assms
  by (auto simp add: fill_github_credentials_def run_fst fst_try_click form_calls_def
      is_Exception_iff split: sum.splits)

lemma fst_fill_no_interrupt:
  assumes "\<forall>r \<in> set (form_calls p). r \<noteq> Inl KeyboardInterrupt"
  shows "fst (fill_github_credentials p u pw) \<noteq> Inl KeyboardInterrupt"
  using assms
  by (auto simp add: fill_github_credentials_def run_fst fst_try_click form_calls_def
      is_Exception_iff split: sum.splits)

lemma messages_fill:
  "set (messages (snd (fill_github_credentials p u pw)))
     \<subseteq> {StepCredentials, SubmitControlNotFound, FillCredentialsFailed}"
  by (auto simp add: fill_github_credentials_def run_fst run_snd fst_try_click messages_append
      messages_try_click split: sum.splits)

lemma submit_not_found_fill:
  "SubmitControlNotFound \<in> set (messages (snd (fill_github_credentials p u pw)))
   \<Longrightarrow> fst (fill_github_credentials p u pw) = Inr False"
  by (auto simp add: fill_github_credentials_def run_fst run_snd fst_try_click messages_append
      messages_try_click split: sum.splits if_splits)


subsection \<open>Missing credentials\<close>

text \<open>
  C5.  In every environment where the username or the password is unset or empty,
  \<open>run_login\<close> exits with code 1 after logging the missing credentials, and its trace
  holds nothing else: no browser is launched and no page is opened.
\<close>

theorem missing_credentials_exit:
  "falsy (environ w ''GH_USERNAME'') \<or> falsy (environ w ''GH_PASSWORD'') \<Longrightarrow>
   run_login w = (1, [Logged MissingCredentials])
   \<and> LaunchBrowser \<notin> set (snd (run_login w)) \<and> NewPage \<notin> set (snd (run_login w))"
  by (simp add: run_login_def Let_def)

theorem missing_credentials_exit_witness:
  "falsy (environ world_without_password ''GH_PASSWORD'')
   \<and> run_login world_without_password = (1, [Logged MissingCredentials])
   \<and> LaunchBrowser \<notin> set (snd (run_login world_without_password))
   \<and> NewPage \<notin> set (snd (run_login world_without_password))"
proof -
  have f: "falsy (environ world_without_password ''GH_PASSWORD'')"
    by (simp add: world_without_password_def falsy_def)
  then show ?thesis
    using missing_credentials_exit [of world_without_password] by blast
qed

subsection \<open>The steps of the flow\<close>

lemma messages_open_provider:
  "set (messages (snd (open_provider w)))
     \<subseteq> {StepVisit, StepFindProviderButton, AlreadyLoggedIn, ProviderButtonNotFound,
         StepWaitProvider}"
  by (auto simp add: open_provider_def flow_fst flow_snd fst_try_click messages_append
      messages_try_click split: sum.splits if_splits)

lemma run_login_with_credentials:
  assumes "\<not> falsy (environ w ''GH_USERNAME'')" "\<not> falsy (environ w ''GH_PASSWORD'')"
  shows "run_login w = browser_session w (str_of (environ w ''GH_USERNAME''))
           (str_of (environ w ''GH_PASSWORD'')) (environ w ''GH_2FA_SECRET'')"
  using assms by (simp add: run_login_def Let_def)

lemma login_flow_stops_at_credentials:
  assumes "fst (open_provider w) = Inr ()"
    and "fst (step_credentials w u p (url_provider w)) = Inl e"
  shows "login_flow w u p t
           = (Inl e, snd (open_provider w) @ snd (step_credentials w u p (url_provider w)))"
  using assms
  by (simp add: login_flow_def prod_eq_iff fst_then_do snd_then_do)

lemma step_credentials_fails:
  assumes "py_in ''github.com/login'' url \<or> py_in ''github.com/session'' url"
    and "fst (fill_github_credentials (credentials w) u p) = Inr False"
  shows "step_credentials w u p url
           = (Inl (SystemExit 1),
              snd (fill_github_credentials (credentials w) u p) @ [Logged GitHubLoginFailed])"
  using assms by (simp add: step_credentials_def prod_eq_iff flow_fst flow_snd)

lemma step_credentials_interrupted:
  assumes "py_in ''github.com/login'' url \<or> py_in ''github.com/session'' url"
    and "fst (fill_github_credentials (credentials w) u p) = Inl KeyboardInterrupt"
  shows "step_credentials w u p url
           = (Inl (Raised KeyboardInterrupt), snd (fill_github_credentials (credentials w) u p))"
  using assms by (simp add: step_credentials_def prod_eq_iff flow_fst flow_snd)

text \<open>
  C10.  When the flow reaches GitHub's login form and the wait for the username field
  or one of the fills raises, or no submit control can be clicked, the process exits
  with a non-zero code and none of the later steps is started.  When what is raised is
  an \<^verbatim>\<open>Exception\<close>, \<open>fill_github_credentials\<close> returns False and \<open>run_login\<close> exits
  with code 1, its trace ending with the failure line of the caller and the closing of
  the browser.
\<close>

theorem credentials_failure_is_fatal:
  assumes "\<not> falsy (environ w ''GH_USERNAME'')" "\<not> falsy (environ w ''GH_PASSWORD'')"
    and "fst (open_provider w) = Inr ()"
    and "py_in ''github.com/login'' (url_provider w) \<or> py_in ''github.com/session'' (url_provider w)"
    and "(\<exists>r \<in> set (form_calls (credentials w)). isl r)
         \<or> \<not> clickable (commit_visible (credentials w)) (commit_click (credentials w))
               login_submit_selectors"
  shows "fst (run_login w) \<noteq> 0
     \<and> set (messages (snd (run_login w))) \<inter> set later_steps = {}
     \<and> ((\<forall>r \<in> set (form_calls (credentials w)). r \<noteq> Inl KeyboardInterrupt) \<longrightarrow>
          fst (fill_github_credentials (credentials w) (str_of (environ w ''GH_USERNAME''))
                 (str_of (environ w ''GH_PASSWORD''))) = Inr False
          \<and> run_login w =
              (1, [LaunchBrowser, NewPage] @ snd (open_provider w)
                  @ snd (fill_github_credentials (credentials w)
                           (str_of (environ w ''GH_USERNAME'')) (str_of (environ w ''GH_PASSWORD'')))
                  @ [Logged GitHubLoginFailed, CloseBrowser]))"
proof -
  let ?u = "str_of (environ w ''GH_USERNAME'')"
  let ?p = "str_of (environ w ''GH_PASSWORD'')"
  let ?t = "environ w ''GH_2FA_SECRET''"
  let ?fill = "fill_github_credentials (credentials w) ?u ?p"
  note run = run_login_with_credentials [OF assms(1,2)]
  have not_true: "fst ?fill \<noteq> Inr True"
    using assms(5) by (rule fst_fill_fails)
  have m_open: "set (messages (snd (open_provider w))) \<inter> set later_steps = {}"
    using messages_open_provider [of w] by (auto simp: later_steps_def)
  have m_fill: "set (messages (snd ?fill)) \<inter> set later_steps = {}"
    using messages_fill [of "credentials w" ?u ?p] by (auto simp: later_steps_def)
  have failed: "run_login w =
              (1, [LaunchBrowser, NewPage] @ snd (open_provider w) @ snd ?fill
                  @ [Logged GitHubLoginFailed, CloseBrowser])" if f: "fst ?fill = Inr False"
  proof -
    have "login_flow w ?u ?p ?t
            = (Inl (SystemExit 1), snd (open_provider w) @ snd ?fill @ [Logged GitHubLoginFailed])"
      using login_flow_stops_at_credentials [OF assms(3), of ?u ?p "SystemExit 1" ?t]
        step_credentials_fails [OF assms(4) f]
      by simp
    then show ?thesis
      unfolding run by (simp add: browser_session_def)
  qed
  have interrupted: "run_login w =
              (130, [LaunchBrowser, NewPage] @ snd (open_provider w) @ snd ?fill
                  @ [Logged UserInterrupted, CloseBrowser])" if f: "fst ?fill = Inl KeyboardInterrupt"
  proof -
    have "login_flow w ?u ?p ?t
            = (Inl (Raised KeyboardInterrupt), snd (open_provider w) @ snd ?fill)"
      using login_flow_stops_at_credentials [OF assms(3), of ?u ?p "Raised KeyboardInterrupt" ?t]
        step_credentials_interrupted [OF assms(4) f]
      by simp
    then show ?thesis
      unfolding run by (simp add: browser_session_def)
  qed
  have cases: "fst ?fill = Inr False \<or> fst ?fill = Inl KeyboardInterrupt"
    using fst_fill_cases [of "credentials w" ?u ?p] not_true by blast
  have a: "fst (run_login w) \<noteq> 0"
    using cases failed interrupted by auto
  have b: "set (messages (snd (run_login w))) \<inter> set later_steps = {}"
    using cases
  proof
    assume f: "fst ?fill = Inr False"
    show ?thesis
      using m_open m_fill unfolding failed [OF f]
      by (auto simp add: messages_append later_steps_def)
  next
    assume f: "fst ?fill = Inl KeyboardInterrupt"
    show ?thesis
      using m_open m_fill unfolding interrupted [OF f]
      by (auto simp add: messages_append later_steps_def)
  qed
  have c: "fst ?fill = Inr False \<and> run_login w =
              (1, [LaunchBrowser, NewPage] @ snd (open_provider w) @ snd ?fill
                  @ [Logged GitHubLoginFailed, CloseBrowser])"
    if "\<forall>r \<in> set (form_calls (credentials w)). r \<noteq> Inl KeyboardInterrupt"
  proof -
    have "fst ?fill \<noteq> Inl KeyboardInterrupt"
      using that by (rule fst_fill_no_interrupt)
    then have "fst ?fill = Inr False"
      using cases by blast
    then show ?thesis
      using failed by blast
  qed
  show ?thesis
    using a b c by blast
qed

theorem credentials_failure_is_fatal_witness:
  "fst (run_login world_without_login_field) \<noteq> 0
   \<and> set (messages (snd (run_login world_without_login_field))) \<inter> set later_steps = {}
   \<and> fst (fill_github_credentials (credentials world_without_login_field) ''octocat'' ''hunter2'')
       = Inr False
   \<and> fst (run_login world_without_submit) \<noteq> 0
   \<and> fst (fill_github_credentials (credentials world_without_submit) ''octocat'' ''hunter2'')
       = Inr False"
proof -
  have env: "\<not> falsy (environ world_without_login_field ''GH_USERNAME'')"
      "\<not> falsy (environ world_without_login_field ''GH_PASSWORD'')"
      "str_of (environ world_without_login_field ''GH_USERNAME'') = ''octocat''"
      "str_of (environ world_without_login_field ''GH_PASSWORD'') = ''hunter2''"
      "\<not> falsy (environ world_without_submit ''GH_USERNAME'')"
      "\<not> falsy (environ world_without_submit ''GH_PASSWORD'')"
      "str_of (environ world_without_submit ''GH_USERNAME'') = ''octocat''"
      "str_of (environ world_without_submit ''GH_PASSWORD'') = ''hunter2''"
    by (simp_all add: world_without_login_field_def world_without_submit_def login_world_def
        falsy_def str_of_def)
  have reach: "fst (open_provider world_without_login_field) = Inr ()"
      "fst (open_provider world_without_submit) = Inr ()"
    by (simp_all add: world_without_login_field_def world_without_submit_def login_world_def
        open_provider_def flow_fst fst_try_click clickable_def github_button_selectors_def)
  have url: "py_in ''github.com/login'' (url_provider world_without_login_field)"
      "py_in ''github.com/login'' (url_provider world_without_submit)"
    by (simp_all add: world_without_login_field_def world_without_submit_def login_world_def)
  have fail: "\<exists>r \<in> set (form_calls (credentials world_without_login_field)). isl r"
      "\<not> clickable (commit_visible (credentials world_without_submit))
           (commit_click (credentials world_without_submit)) login_submit_selectors"
    by (simp_all add: world_without_login_field_def world_without_submit_def login_world_def
        form_calls_def clickable_def login_submit_selectors_def)
  have quiet: "\<forall>r \<in> set (form_calls (credentials world_without_login_field)).
                 r \<noteq> Inl KeyboardInterrupt"
      "\<forall>r \<in> set (form_calls (credentials world_without_submit)). r \<noteq> Inl KeyboardInterrupt"
    by (simp_all add: world_without_login_field_def world_without_submit_def login_world_def
        form_calls_def)
  note a = credentials_failure_is_fatal
      [OF env(1,2) reach(1) disjI1 [OF url(1)] disjI1 [OF fail(1)], unfolded env(3,4)]
  note b = credentials_failure_is_fatal
      [OF env(5,6) reach(2) disjI1 [OF url(2)] disjI2 [OF fail(2)], unfolded env(7,8)]
  show ?thesis
    using a b quiet by blast
qed

subsection \<open>Exit codes\<close>

lemma exits_as_logged_then_do:
  assumes "exits_as_logged m" "\<And>x. exits_as_logged (f x)"
  shows "exits_as_logged (then_do m f)"
proof (cases "fst m")
  case (Inl e)
  then have "fst (then_do m f) = Inl e" "snd (then_do m f) = snd m"
    by (simp_all add: fst_then_do snd_then_do)
  then show ?thesis
    using assms(1) Inl by (simp add: exits_as_logged_def)
next
  case (Inr x)
  have clean: "set (messages (snd m)) \<inter>
             {ProviderButtonNotFound, SubmitControlNotFound, DeviceVerificationTimeout,
              TwoFactorFailed, LoginUnconfirmed} = {}"
    using assms(1) Inr by (simp add: exits_as_logged_def)
  have own: "set (messages (snd m)) \<inter> {MissingCredentials, UserInterrupted, UnhandledException} = {}"
    using assms(1) by (simp add: exits_as_logged_def)
  have f: "fst (then_do m f) = fst (f x)" "snd (then_do m f) = snd m @ snd (f x)"
    using Inr by (simp_all add: fst_then_do snd_then_do)
  show ?thesis
    using assms(2) [of x] clean own
    unfolding exits_as_logged_def f messages_append set_append Int_Un_distrib2
    by blast
qed

lemma exits_as_logged_prims:
  "exits_as_logged (ret x)"
  "exits_as_logged (sleep d)"
  "exits_as_logged (lift (call r))"
  "exits_as_logged (lift (perform (Goto url) r))"
  "exits_as_logged (lift (try_click v c ss))"
  by (simp_all add: exits_as_logged_def flow_fst flow_snd messages_try_click split: sum.splits)

lemma exits_as_logged_fatal:
  "exits_as_logged (then_do (log_step m) (\<lambda>_. sys_exit 1))"
  if "m \<notin> {MissingCredentials, UserInterrupted, UnhandledException}"
  using that by (simp add: exits_as_logged_def flow_fst flow_snd)

lemma exits_as_logged_log:
  "exits_as_logged (log_step m)"
  if "m \<notin> {ProviderButtonNotFound, SubmitControlNotFound, DeviceVerificationTimeout,
            TwoFactorFailed, LoginUnconfirmed,
            MissingCredentials, UserInterrupted, UnhandledException}"
  using that by (simp add: exits_as_logged_def flow_fst flow_snd)

lemma exits_open_provider: "exits_as_logged (open_provider w)"
  unfolding open_provider_def
  by (intro exits_as_logged_then_do exits_as_logged_prims exits_as_logged_log)
     (simp_all add: exits_as_logged_prims exits_as_logged_log exits_as_logged_fatal)


lemma exits_step_credentials: "exits_as_logged (step_credentials w u p url)"
  using messages_fill [of "credentials w" u p] submit_not_found_fill [of "credentials w" u p]
  by (auto simp add: step_credentials_def exits_as_logged_def flow_fst flow_snd messages_append
      split: sum.splits)

lemma fst_handle_device:
  "fst (handle_device_verification page)
     = Inr (find (\<lambda>k. left_device_verification (page k)) check_seconds \<noteq> None)"
  unfolding handle_device_verification_unrolled by (simp split: option.splits)

lemma messages_handle_device:
  "messages (snd (handle_device_verification page))
     = (if find (\<lambda>k. left_device_verification (page k)) check_seconds \<noteq> None
        then [StepDeviceVerification, DeviceVerified]
        else [StepDeviceVerification, DeviceVerificationTimeout])"
  unfolding handle_device_verification_unrolled
  by (simp add: messages_append messages_replicate_slept split: option.splits)

lemma exits_step_device: "exits_as_logged (step_device w url)"
  by (auto simp add: step_device_def exits_as_logged_def flow_fst flow_snd messages_append
      fst_handle_device messages_handle_device split: sum.splits)

lemma messages_handle_2fa:
  "set (messages (snd (handle_2fa_verification page s)))
     \<subseteq> {StepTwoFactor, MissingSecret, CodeGenerationFailed, NoInputFound, FillCodeFailed,
         TwoFactorAccepted, CodeRejected, RetriesExhausted}"
proof (cases "falsy s")
  case True
  then show ?thesis
    by (auto simp add: falsy_def handle_2fa_verification_def run_fst run_snd split: option.splits)
next
  case False
  then obtain secret where s: "s = Some secret" "secret \<noteq> []"
    by (cases s) (auto simp: falsy_def)
  show ?thesis
    using messages_retry_loop [of page secret "[0..<MAX_2FA_RETRIES]"]
    unfolding s(1) handle_2fa_with_secret [OF s(2)] by auto
qed

lemma exits_step_two_factor: "exits_as_logged (step_two_factor w t url)"
  using messages_handle_2fa [of "twofa w" t]
  by (auto simp add: step_two_factor_def exits_as_logged_def flow_fst flow_snd messages_append
      split: sum.splits)

lemma exits_step_oauth: "exits_as_logged (step_oauth w url)"
  by (auto simp add: step_oauth_def handle_oauth_authorization_def exits_as_logged_def
      flow_fst flow_snd messages_append fst_try_click messages_try_click split: sum.splits)

lemma exits_step_final: "exits_as_logged (step_final w)"
  by (auto simp add: step_final_def verify_login_success_def exits_as_logged_def
      flow_fst flow_snd messages_append split: sum.splits)

lemma exits_login_flow: "exits_as_logged (login_flow w u p t)"
  unfolding login_flow_def
  by (intro exits_as_logged_then_do exits_open_provider exits_step_credentials exits_step_device
      exits_step_two_factor exits_step_oauth exits_step_final)

text \<open>For running the login on a scripted world.\<close>

lemmas world_eval = run_login_def browser_session_def login_flow_def open_provider_def
  step_credentials_def step_device_def step_two_factor_def step_oauth_def step_final_def
  fill_github_credentials_def handle_oauth_authorization_def verify_login_success_def
  flow_eval falsy_def str_of_def Let_def
  login_world_def world_without_password_def world_without_submit_def
  world_without_login_field_def world_interrupted_def world_goto_fails_def
  github_button_selectors_def login_submit_selectors_def authorize_selectors_def CLAW_CLOUD_URL_def

lemma run_world_without_password:
  "run_login world_without_password = (1, [Logged MissingCredentials])"
  by (simp add: world_eval)

lemma run_world_goto_fails:
  "run_login world_goto_fails
     = (1, [LaunchBrowser, NewPage, Logged StepVisit, Logged UnhandledException, CloseBrowser])"
  by (simp add: world_eval)

lemma run_world_interrupted:
  "run_login world_interrupted
     = (130, [LaunchBrowser, NewPage, Logged StepVisit, Logged UserInterrupted, CloseBrowser])"
  by (simp add: world_eval)

lemma run_world_without_submit:
  "fst (run_login world_without_submit) = 1
   \<and> messages (snd (run_login world_without_submit))
       = [StepVisit, StepFindProviderButton, StepWaitProvider, StepCredentials,
          SubmitControlNotFound, GitHubLoginFailed]"
  by (simp add: world_eval)

lemma exit_codes_as_logged:
  "fst (run_login w) \<in> {0, 1, 130}
   \<and> (\<forall>failure \<in> set programmatic_failures.
        failure \<in> set (messages (snd (run_login w))) \<longrightarrow> fst (run_login w) = 1)
   \<and> (UserInterrupted \<in> set (messages (snd (run_login w))) \<longrightarrow> fst (run_login w) = 130)
   \<and> (fst (run_login w) = 130 \<longrightarrow> UserInterrupted \<in> set (messages (snd (run_login w))))"
proof (cases "falsy (environ w ''GH_USERNAME'') \<or> falsy (environ w ''GH_PASSWORD'')")
  case True
  then show ?thesis
    by (simp add: run_login_def Let_def programmatic_failures_def)
next
  case False
  let ?flow = "login_flow w (str_of (environ w ''GH_USERNAME''))
                 (str_of (environ w ''GH_PASSWORD'')) (environ w ''GH_2FA_SECRET'')"
  have run: "run_login w = browser_session w (str_of (environ w ''GH_USERNAME''))
                 (str_of (environ w ''GH_PASSWORD'')) (environ w ''GH_2FA_SECRET'')"
    using False by (simp add: run_login_with_credentials)
  obtain r t where flow: "?flow = (r, t)"
    by (cases ?flow)
  have ex: "exits_as_logged (r, t)"
    using exits_login_flow [of w] unfolding flow [symmetric] by simp
  show ?thesis
  proof (cases r)
    case (Inr u)
    then show ?thesis
      using ex unfolding run browser_session_def flow
      by (auto simp add: exits_as_logged_def messages_append programmatic_failures_def)
  next
    case (Inl a)
    show ?thesis
    proof (cases a)
      case (SystemExit code)
      then show ?thesis
        using ex Inl unfolding run browser_session_def flow
        by (auto simp add: exits_as_logged_def messages_append programmatic_failures_def)
    next
      case (Raised e)
      then show ?thesis
        using ex Inl unfolding run browser_session_def flow
        by (cases e)
           (auto simp add: exits_as_logged_def messages_append programmatic_failures_def)
    qed
  qed
qed


subsection \<open>The flow, step by step\<close>

lemma then_do_assoc: "then_do (then_do m f) g = then_do m (\<lambda>x. then_do (f x) g)"
  by (cases m; cases "fst m")
     (auto simp add: then_do_def split: sum.splits prod.splits)

lemma then_do_stops: "fst m = Inl a \<Longrightarrow> fst (then_do m f) = Inl a \<and> snd (then_do m f) = snd m"
  by (simp add: fst_then_do snd_then_do)

lemma then_do_goes:
  "fst m = Inr x \<Longrightarrow> fst (then_do m f) = fst (f x) \<and> snd (then_do m f) = snd m @ snd (f x)"
  by (simp add: fst_then_do snd_then_do)

lemma flow_of_through_oauth: "flow_of w = then_do (through_oauth w) (\<lambda>_. step_final w)"
  by (simp add: flow_of_def login_flow_def through_oauth_def through_two_factor_def
      through_device_def through_credentials_def then_do_assoc)

lemma flow_of_through_two_factor:
  "flow_of w = then_do (through_two_factor w) (\<lambda>url. then_do (step_oauth w url) (\<lambda>_. step_final w))"
  by (simp add: flow_of_through_oauth through_oauth_def then_do_assoc)

lemma flow_of_through_device:
  "flow_of w = then_do (through_device w) (\<lambda>url.
     then_do (step_two_factor w (secret_of w) url) (\<lambda>url.
     then_do (step_oauth w url) (\<lambda>_. step_final w)))"
  by (simp add: flow_of_through_two_factor through_two_factor_def then_do_assoc)

lemma flow_of_through_credentials:
  "flow_of w = then_do (through_credentials w) (\<lambda>url.
     then_do (step_device w url) (\<lambda>url.
     then_do (step_two_factor w (secret_of w) url) (\<lambda>url.
     then_do (step_oauth w url) (\<lambda>_. step_final w))))"
  by (simp add: flow_of_through_device through_device_def then_do_assoc)

lemma flow_of_open_provider:
  "flow_of w = then_do (open_provider w) (\<lambda>_.
     then_do (step_credentials w (username_of w) (password_of w) (url_provider w)) (\<lambda>url.
     then_do (step_device w url) (\<lambda>url.
     then_do (step_two_factor w (secret_of w) url) (\<lambda>url.
     then_do (step_oauth w url) (\<lambda>_. step_final w)))))"
  by (simp add: flow_of_def login_flow_def)

text \<open>What the handlers make of the flow.\<close>

lemma run_login_flow_of:
  "has_credentials w \<Longrightarrow> run_login w = browser_session w (username_of w) (password_of w) (secret_of w)"
  by (simp add: run_login_def Let_def has_credentials_def username_of_def password_of_def secret_of_def)

lemma run_login_exit:
  assumes "has_credentials w" "fst (flow_of w) = Inl (SystemExit code)"
  shows "fst (run_login w) = code"
    and "messages (snd (run_login w)) = messages (snd (flow_of w))"
  using assms(2) unfolding run_login_flow_of [OF assms(1)] browser_session_def flow_of_def
  by (auto simp add: messages_append split: prod.splits)

lemma run_login_interrupt:
  assumes "has_credentials w" "fst (flow_of w) = Inl (Raised KeyboardInterrupt)"
  shows "fst (run_login w) = 130"
    and "messages (snd (run_login w)) = messages (snd (flow_of w)) @ [UserInterrupted]"
  using assms(2) unfolding run_login_flow_of [OF assms(1)] browser_session_def flow_of_def
  by (auto simp add: messages_append split: prod.splits)

lemma run_login_exception:
  assumes "has_credentials w" "fst (flow_of w) = Inl (Raised e)" "is_Exception e"
  shows "fst (run_login w) = 1"
    and "messages (snd (run_login w)) = messages (snd (flow_of w)) @ [UnhandledException]"
  using assms(2,3) unfolding run_login_flow_of [OF assms(1)] browser_session_def flow_of_def
  by (cases e; auto simp add: messages_append split: prod.splits)+


subsection \<open>Each fatal condition\<close>

lemma provider_button_not_found:
  assumes "goto_result w = Inr ()" "load_home w = Inr ()"
    and "\<not> clickable (provider_visible w) (provider_click w) github_button_selectors"
    and "py_in ''signin'' (lower (url_home w))"
  shows "fst (flow_of w) = Inl (SystemExit 1)"
    and "ProviderButtonNotFound \<in> set (messages (snd (flow_of w)))"
proof -
  have "fst (open_provider w) = Inl (SystemExit 1)
        \<and> ProviderButtonNotFound \<in> set (messages (snd (open_provider w)))"
    using assms
    by (simp add: open_provider_def flow_fst flow_snd fst_try_click messages_append
        messages_try_click)
  then show "fst (flow_of w) = Inl (SystemExit 1)"
    and "ProviderButtonNotFound \<in> set (messages (snd (flow_of w)))"
    unfolding flow_of_open_provider by (simp_all add: then_do_stops)
qed

lemma fill_without_submit:
  assumes "\<forall>r \<in> set (form_calls p). \<not> isl r"
    and "\<not> clickable (commit_visible p) (commit_click p) login_submit_selectors"
  shows "fst (fill_github_credentials p u pw) = Inr False"
    and "SubmitControlNotFound \<in> set (messages (snd (fill_github_credentials p u pw)))"
  using assms
  by (auto simp add: fill_github_credentials_def run_fst run_snd fst_try_click form_calls_def
      messages_append messages_try_click split: sum.splits)

lemma submit_control_not_found:
  assumes "fst (open_provider w) = Inr ()"
    and "py_in ''github.com/login'' (url_provider w) \<or> py_in ''github.com/session'' (url_provider w)"
    and "\<forall>r \<in> set (form_calls (credentials w)). \<not> isl r"
    and "\<not> clickable (commit_visible (credentials w)) (commit_click (credentials w))
           login_submit_selectors"
  shows "fst (flow_of w) = Inl (SystemExit 1)"
    and "SubmitControlNotFound \<in> set (messages (snd (flow_of w)))"
proof -
  let ?step = "step_credentials w (username_of w) (password_of w) (url_provider w)"
  note fill = fill_without_submit [OF assms(3,4), of "username_of w" "password_of w"]
  have "fst ?step = Inl (SystemExit 1) \<and> SubmitControlNotFound \<in> set (messages (snd ?step))"
    using assms(2) fill
    by (simp add: step_credentials_def flow_fst flow_snd messages_append)
  then show "fst (flow_of w) = Inl (SystemExit 1)"
    and "SubmitControlNotFound \<in> set (messages (snd (flow_of w)))"
    unfolding flow_of_open_provider using assms(1)
    by (simp_all add: then_do_goes then_do_stops messages_append)
qed

lemma device_verification_timeout:
  assumes "fst (through_credentials w) = Inr url"
    and "py_in ''verified-device'' url \<or> py_in ''device-verification'' url"
    and "\<forall>k \<in> set check_seconds. \<not> left_device_verification (device w k)"
  shows "fst (flow_of w) = Inl (SystemExit 1)"
    and "DeviceVerificationTimeout \<in> set (messages (snd (flow_of w)))"
proof -
  have none: "find (\<lambda>k. left_device_verification (device w k)) check_seconds = None"
    using assms(3) by (simp add: find_None_iff)
  have "fst (step_device w url) = Inl (SystemExit 1)
        \<and> DeviceVerificationTimeout \<in> set (messages (snd (step_device w url)))"
    using assms(2) none
    by (simp add: step_device_def flow_fst flow_snd messages_append fst_handle_device
        messages_handle_device)
  then show "fst (flow_of w) = Inl (SystemExit 1)"
    and "DeviceVerificationTimeout \<in> set (messages (snd (flow_of w)))"
    unfolding flow_of_through_credentials using assms(1)
    by (simp_all add: then_do_goes then_do_stops messages_append)
qed

lemma two_factor_failure:
  assumes "fst (through_device w) = Inr url"
    and "py_in ''two-factor'' url \<or> py_in ''sessions/two-factor'' url"
    and "fst (handle_2fa_verification (twofa w) (secret_of w)) = Inr False"
  shows "fst (flow_of w) = Inl (SystemExit 1)"
    and "TwoFactorFailed \<in> set (messages (snd (flow_of w)))"
proof -
  let ?step = "step_two_factor w (secret_of w) url"
  have "fst ?step = Inl (SystemExit 1) \<and> TwoFactorFailed \<in> set (messages (snd ?step))"
    using assms(2,3)
    by (simp add: step_two_factor_def flow_fst flow_snd messages_append)
  then show "fst (flow_of w) = Inl (SystemExit 1)"
    and "TwoFactorFailed \<in> set (messages (snd (flow_of w)))"
    unfolding flow_of_through_device using assms(1)
    by (simp_all add: then_do_goes then_do_stops messages_append)
qed

lemma login_unconfirmed:
  assumes "fst (through_oauth w) = Inr ()"
    and "load_final w = Inr () \<or> load_final w = Inl PlaywrightTimeout"
    and "fst (verify_login_success (verify w)) = Inr False"
  shows "fst (flow_of w) = Inl (SystemExit 1)"
    and "LoginUnconfirmed \<in> set (messages (snd (flow_of w)))"
proof -
  have "fst (step_final w) = Inl (SystemExit 1)
        \<and> LoginUnconfirmed \<in> set (messages (snd (step_final w)))"
    using assms(2,3)
    by (auto simp add: step_final_def flow_fst flow_snd messages_append)
  then show "fst (flow_of w) = Inl (SystemExit 1)"
    and "LoginUnconfirmed \<in> set (messages (snd (flow_of w)))"
    unfolding flow_of_through_oauth using assms(1)
    by (simp_all add: then_do_goes then_do_stops messages_append)
qed


lemmas fatal_eval = world_eval twofa_eval verify_eval accepting_page_def
  world_without_provider_button_def world_device_timeout_def world_without_seed_def
  world_unconfirmed_def has_credentials_def username_of_def password_of_def secret_of_def
  through_credentials_def through_device_def through_two_factor_def through_oauth_def flow_of_def
  clickable_def form_calls_def lower_def lower_char_def page_never_verified_def
  left_device_verification_def check_seconds_def

text \<open>
  C6, as amended.  Every run ends with exit code 0, 1 or 130.  Each programmatic fatal
  condition ends the process with code 1, the same for all of them, after logging its
  own line: missing credentials; no provider button on a sign-in page; no submit control
  on GitHub's form; a device verification that is never left; a two-factor prompt that
  fails; a login that the heuristic does not confirm; an \<^verbatim>\<open>Exception\<close> that leaves the
  flow.  An interrupt of the user that leaves the flow ends it with code 130, and a run
  exits with 130 exactly when it has logged the interrupt.
\<close>

theorem exit_codes_of_fatal_conditions:
  "fst (run_login w) \<in> {0, 1, 130}
   \<and> (\<forall>failure \<in> set programmatic_failures.
        failure \<in> set (messages (snd (run_login w))) \<longrightarrow> fst (run_login w) = 1)
   \<and> (UserInterrupted \<in> set (messages (snd (run_login w))) \<longrightarrow> fst (run_login w) = 130)
   \<and> (fst (run_login w) = 130 \<longrightarrow> UserInterrupted \<in> set (messages (snd (run_login w))))
   \<and> (\<not> has_credentials w \<longrightarrow>
        fst (run_login w) = 1 \<and> MissingCredentials \<in> set (messages (snd (run_login w))))
   \<and> (has_credentials w \<and> goto_result w = Inr () \<and> load_home w = Inr ()
        \<and> \<not> clickable (provider_visible w) (provider_click w) github_button_selectors
        \<and> py_in ''signin'' (lower (url_home w)) \<longrightarrow>
        fst (run_login w) = 1 \<and> ProviderButtonNotFound \<in> set (messages (snd (run_login w))))
   \<and> (has_credentials w \<and> fst (open_provider w) = Inr ()
        \<and> (py_in ''github.com/login'' (url_provider w) \<or> py_in ''github.com/session'' (url_provider w))
        \<and> (\<forall>r \<in> set (form_calls (credentials w)). \<not> isl r)
        \<and> \<not> clickable (commit_visible (credentials w)) (commit_click (credentials w))
              login_submit_selectors \<longrightarrow>
        fst (run_login w) = 1 \<and> SubmitControlNotFound \<in> set (messages (snd (run_login w))))
   \<and> (has_credentials w
        \<and> (\<exists>url. fst (through_credentials w) = Inr url
               \<and> (py_in ''verified-device'' url \<or> py_in ''device-verification'' url))
        \<and> (\<forall>k \<in> set check_seconds. \<not> left_device_verification (device w k)) \<longrightarrow>
        fst (run_login w) = 1 \<and> DeviceVerificationTimeout \<in> set (messages (snd (run_login w))))
   \<and> (has_credentials w
        \<and> (\<exists>url. fst (through_device w) = Inr url
               \<and> (py_in ''two-factor'' url \<or> py_in ''sessions/two-factor'' url))
        \<and> fst (handle_2fa_verification (twofa w) (secret_of w)) = Inr False \<longrightarrow>
        fst (run_login w) = 1 \<and> TwoFactorFailed \<in> set (messages (snd (run_login w))))
   \<and> (has_credentials w \<and> fst (through_oauth w) = Inr ()
        \<and> (load_final w = Inr () \<or> load_final w = Inl PlaywrightTimeout)
        \<and> fst (verify_login_success (verify w)) = Inr False \<longrightarrow>
        fst (run_login w) = 1 \<and> LoginUnconfirmed \<in> set (messages (snd (run_login w))))
   \<and> (has_credentials w \<and> fst (flow_of w) = Inl (Raised KeyboardInterrupt) \<longrightarrow>
        fst (run_login w) = 130 \<and> UserInterrupted \<in> set (messages (snd (run_login w))))
   \<and> (has_credentials w \<and> (\<exists>e. fst (flow_of w) = Inl (Raised e) \<and> is_Exception e) \<longrightarrow>
        fst (run_login w) = 1 \<and> UnhandledException \<in> set (messages (snd (run_login w))))"
proof -
  note logged = exit_codes_as_logged [of w]
  have l1: "fst (run_login w) \<in> {0, 1, 130}"
    using logged by blast
  have l2: "\<forall>failure \<in> set programmatic_failures.
        failure \<in> set (messages (snd (run_login w))) \<longrightarrow> fst (run_login w) = 1"
    using logged by blast
  have l3: "UserInterrupted \<in> set (messages (snd (run_login w))) \<longrightarrow> fst (run_login w) = 130"
    using logged by blast
  have l4: "fst (run_login w) = 130 \<longrightarrow> UserInterrupted \<in> set (messages (snd (run_login w)))"
    using logged by blast
  have missing: "fst (run_login w) = 1 \<and> MissingCredentials \<in> set (messages (snd (run_login w)))"
    if "\<not> has_credentials w"
    using that by (auto simp add: run_login_def Let_def has_credentials_def)
  have exit1: "fst (run_login w) = 1 \<and> m \<in> set (messages (snd (run_login w)))"
    if "has_credentials w" "fst (flow_of w) = Inl (SystemExit 1)"
      "m \<in> set (messages (snd (flow_of w)))" for m
    using run_login_exit [OF that(1,2)] that(3) by simp
  have provider: "fst (run_login w) = 1 \<and> ProviderButtonNotFound \<in> set (messages (snd (run_login w)))"
    if "has_credentials w" "goto_result w = Inr ()" "load_home w = Inr ()"
      "\<not> clickable (provider_visible w) (provider_click w) github_button_selectors"
      "py_in ''signin'' (lower (url_home w))"
    using exit1 [OF that(1)] provider_button_not_found [OF that(2-5)] by blast
  have submit: "fst (run_login w) = 1 \<and> SubmitControlNotFound \<in> set (messages (snd (run_login w)))"
    if "has_credentials w" "fst (open_provider w) = Inr ()"
      "py_in ''github.com/login'' (url_provider w) \<or> py_in ''github.com/session'' (url_provider w)"
      "\<forall>r \<in> set (form_calls (credentials w)). \<not> isl r"
      "\<not> clickable (commit_visible (credentials w)) (commit_click (credentials w))
              login_submit_selectors"
    using exit1 [OF that(1)] submit_control_not_found [OF that(2-5)] by blast
  have device: "fst (run_login w) = 1 \<and> DeviceVerificationTimeout \<in> set (messages (snd (run_login w)))"
    if "has_credentials w" "fst (through_credentials w) = Inr url"
      "py_in ''verified-device'' url \<or> py_in ''device-verification'' url"
      "\<forall>k \<in> set check_seconds. \<not> left_device_verification (device w k)" for url
    using exit1 [OF that(1)] device_verification_timeout [OF that(2-4)] by blast
  have twofactor: "fst (run_login w) = 1 \<and> TwoFactorFailed \<in> set (messages (snd (run_login w)))"
    if "has_credentials w" "fst (through_device w) = Inr url"
      "py_in ''two-factor'' url \<or> py_in ''sessions/two-factor'' url"
      "fst (handle_2fa_verification (twofa w) (secret_of w)) = Inr False" for url
    using exit1 [OF that(1)] two_factor_failure [OF that(2-4)] by blast
  have unconfirmed: "fst (run_login w) = 1 \<and> LoginUnconfirmed \<in> set (messages (snd (run_login w)))"
    if "has_credentials w" "fst (through_oauth w) = Inr ()"
      "load_final w = Inr () \<or> load_final w = Inl PlaywrightTimeout"
      "fst (verify_login_success (verify w)) = Inr False"
    using exit1 [OF that(1)] login_unconfirmed [OF that(2-4)] by blast
  have interrupt: "fst (run_login w) = 130 \<and> UserInterrupted \<in> set (messages (snd (run_login w)))"
    if "has_credentials w" "fst (flow_of w) = Inl (Raised KeyboardInterrupt)"
    using run_login_interrupt [OF that] by simp
  have unhandled: "fst (run_login w) = 1 \<and> UnhandledException \<in> set (messages (snd (run_login w)))"
    if "has_credentials w" "fst (flow_of w) = Inl (Raised e)" "is_Exception e" for e
    using run_login_exception [OF that] by simp
  show ?thesis
  proof (intro conjI)
    show "fst (run_login w) \<in> {0, 1, 130}" by (fact l1)
    show "\<forall>failure \<in> set programmatic_failures.
        failure \<in> set (messages (snd (run_login w))) \<longrightarrow> fst (run_login w) = 1" by (fact l2)
    show "UserInterrupted \<in> set (messages (snd (run_login w))) \<longrightarrow> fst (run_login w) = 130"
      by (fact l3)
    show "fst (run_login w) = 130 \<longrightarrow> UserInterrupted \<in> set (messages (snd (run_login w)))"
      by (fact l4)
  qed (use missing provider submit device twofactor unconfirmed interrupt unhandled in blast)+
qed


theorem exit_codes_of_fatal_conditions_counterexample:
  "fst (run_login world_without_password) = 1
   \<and> MissingCredentials \<in> set (messages (snd (run_login world_without_password)))
   \<and> fst (run_login world_without_submit) = 1
   \<and> SubmitControlNotFound \<in> set (messages (snd (run_login world_without_submit)))
   \<and> fst (run_login world_goto_fails) = 1
   \<and> UnhandledException \<in> set (messages (snd (run_login world_goto_fails)))"
  by (simp add: run_world_without_password run_world_goto_fails run_world_without_submit)

theorem exit_codes_of_fatal_conditions_witness:
  "fst (run_login world_without_password) = 1
   \<and> fst (run_login world_without_provider_button) = 1
   \<and> fst (run_login world_without_submit) = 1
   \<and> fst (run_login world_device_timeout) = 1
   \<and> fst (run_login world_without_seed) = 1
   \<and> fst (run_login world_unconfirmed) = 1
   \<and> fst (run_login world_interrupted) = 130
   \<and> fst (run_login world_goto_fails) = 1"
proof -
  have password: "\<not> has_credentials world_without_password"
    by (simp add: fatal_eval)
  have button: "has_credentials world_without_provider_button"
      "goto_result world_without_provider_button = Inr ()"
      "load_home world_without_provider_button = Inr ()"
      "\<not> clickable (provider_visible world_without_provider_button)
           (provider_click world_without_provider_button) github_button_selectors"
      "py_in ''signin'' (lower (url_home world_without_provider_button))"
    by (simp_all add: fatal_eval)
  have submit: "has_credentials world_without_submit"
      "fst (open_provider world_without_submit) = Inr ()"
      "py_in ''github.com/login'' (url_provider world_without_submit)"
      "\<forall>r \<in> set (form_calls (credentials world_without_submit)). \<not> isl r"
      "\<not> clickable (commit_visible (credentials world_without_submit))
           (commit_click (credentials world_without_submit)) login_submit_selectors"
    by (simp_all add: fatal_eval)
  have device: "has_credentials world_device_timeout"
      "fst (through_credentials world_device_timeout)
         = Inr ''https://github.com/sessions/verified-device''"
      "py_in ''verified-device'' ''https://github.com/sessions/verified-device''"
      "\<forall>k \<in> set check_seconds. \<not> left_device_verification (device world_device_timeout k)"
    by (simp_all add: fatal_eval)
  have seed: "has_credentials world_without_seed"
      "fst (through_device world_without_seed) = Inr ''https://github.com/sessions/two-factor/app''"
      "py_in ''two-factor'' ''https://github.com/sessions/two-factor/app''"
      "fst (handle_2fa_verification (twofa world_without_seed) (secret_of world_without_seed))
         = Inr False"
    by (simp_all add: fatal_eval)
  have unconfirmed: "has_credentials world_unconfirmed"
      "fst (through_oauth world_unconfirmed) = Inr ()"
      "load_final world_unconfirmed = Inr ()"
      "fst (verify_login_success (verify world_unconfirmed)) = Inr False"
    by (simp_all add: fatal_eval)
  have interrupted: "has_credentials world_interrupted"
      "fst (flow_of world_interrupted) = Inl (Raised KeyboardInterrupt)"
    by (simp_all add: fatal_eval)
  have failing: "has_credentials world_goto_fails"
      "fst (flow_of world_goto_fails) = Inl (Raised OtherException)"
      "is_Exception OtherException"
    by (simp_all add: fatal_eval)
  have 1: "fst (run_login world_without_password) = 1"
    using exit_codes_of_fatal_conditions [of world_without_password] password by blast
  have 2: "fst (run_login world_without_provider_button) = 1"
    using exit_codes_of_fatal_conditions [of world_without_provider_button] button by blast
  have 3: "fst (run_login world_without_submit) = 1"
    using exit_codes_of_fatal_conditions [of world_without_submit] submit by blast
  have 4: "fst (run_login world_device_timeout) = 1"
    using exit_codes_of_fatal_conditions [of world_device_timeout] device by blast
  have 5: "fst (run_login world_without_seed) = 1"
    using exit_codes_of_fatal_conditions [of world_without_seed] seed by blast
  have 6: "fst (run_login world_unconfirmed) = 1"
    using exit_codes_of_fatal_conditions [of world_unconfirmed] unconfirmed by blast
  have 7: "fst (run_login world_interrupted) = 130"
    using exit_codes_of_fatal_conditions [of world_interrupted] interrupted by blast
  have 8: "fst (run_login world_goto_fails) = 1"
    using exit_codes_of_fatal_conditions [of world_goto_fails] failing by blast
  show ?thesis
    using 1 2 3 4 5 6 7 8 by simp
qed

end
